theory Spec2Isabelle
  imports Complex_Main "HOL-Library.Char_ord" "HOL-Library.List_Lexorder"
begin

section \<open>Characters and string primitives\<close>

text \<open>
  Strings are lists of characters.  The character classes used by the program
  (\<^verbatim>\<open>\p{L}\<close>, \<^verbatim>\<open>\s\<close>, \<^verbatim>\<open>toLowerCase\<close>, \<^verbatim>\<open>toUpperCase\<close>)
  are those of the JavaScript runtime; they are modelled on the ASCII range: the
  letters are \<open>A\<close>..\<open>Z\<close> and \<open>a\<close>..\<open>z\<close>, white space is
  TAB, LF, VT, FF, CR and the blank.
\<close>

definition isSpace :: "char \<Rightarrow> bool" where
  "isSpace c = (c \<in> {CHR 0x09, CHR 0x0A, CHR 0x0B, CHR 0x0C, CHR 0x0D, CHR 0x20})"

definition isTab :: "char \<Rightarrow> bool" where
  "isTab c = (c = CHR 0x09)"

definition isNewline :: "char \<Rightarrow> bool" where
  "isNewline c = (c = CHR 0x0A)"

definition upperLetters :: string where
  "upperLetters = ''ABCDEFGHIJKLMNOPQRSTUVWXYZ''"

definition lowerLetters :: string where
  "lowerLetters = ''abcdefghijklmnopqrstuvwxyz''"

definition isLetter :: "char \<Rightarrow> bool" where
  "isLetter c = (c \<in> set upperLetters \<or> c \<in> set lowerLetters)"

definition isDigit :: "char \<Rightarrow> bool" where
  "isDigit c = (c \<in> set ''0123456789'')"

definition digitValue :: "char \<Rightarrow> nat" where
  "digitValue c = (case map_of (zip ''0123456789'' [0, 1, 2, 3, 4, 5, 6, 7, 8, 9]) c of
       None \<Rightarrow> 0 | Some d \<Rightarrow> d)"

definition toLowerChar :: "char \<Rightarrow> char" where
  "toLowerChar c = (case map_of (zip upperLetters lowerLetters) c of None \<Rightarrow> c | Some d \<Rightarrow> d)"

definition toUpperChar :: "char \<Rightarrow> char" where
  "toUpperChar c = (case map_of (zip lowerLetters upperLetters) c of None \<Rightarrow> c | Some d \<Rightarrow> d)"

definition toLowerCase :: "string \<Rightarrow> string" where
  "toLowerCase s = map toLowerChar s"

text \<open>\<^verbatim>\<open>s.trim()\<close>: white space removed at both ends.\<close>

definition trim :: "string \<Rightarrow> string" where
  "trim s = rev (dropWhile isSpace (rev (dropWhile isSpace s)))"

text \<open>\<^verbatim>\<open>s.startsWith("#")\<close>.\<close>

definition startsWithHash :: "string \<Rightarrow> bool" where
  "startsWithHash s = (case s of [] \<Rightarrow> False | c # _ \<Rightarrow> c = CHR ''#'')"

text \<open>
  \<^verbatim>\<open>s.split(/X+/)\<close> for a character class \<open>X\<close>: the string is cut at every maximal
  run of characters of the class; a run at the start or at the end leaves an empty
  first or last piece, and the empty string gives one empty piece.
\<close>

function splitRuns :: "(char \<Rightarrow> bool) \<Rightarrow> string \<Rightarrow> string list" where
  "splitRuns P [] = [[]]"
| "splitRuns P (c # cs) =
     (if P c then [] # splitRuns P (dropWhile P cs)
      else (case splitRuns P cs of [] \<Rightarrow> [[c]] | l # ls \<Rightarrow> (c # l) # ls))"
  by pat_completeness auto
termination
  by (relation "measure (\<lambda>(P, s). length s)") (auto simp: le_imp_less_Suc length_dropWhile_le)

text \<open>\<^verbatim>\<open>s.replace(/X+/g, " ")\<close>: every maximal run of the class becomes one blank.\<close>

function replaceRuns :: "(char \<Rightarrow> bool) \<Rightarrow> string \<Rightarrow> string" where
  "replaceRuns P [] = []"
| "replaceRuns P (c # cs) =
     (if P c then CHR 0x20 # replaceRuns P (dropWhile P cs) else c # replaceRuns P cs)"
  by pat_completeness auto
termination
  by (relation "measure (\<lambda>(P, s). length s)") (auto simp: le_imp_less_Suc length_dropWhile_le)

text \<open>\<^verbatim>\<open>raw.split(/\r?\n/)\<close>: lines end at LF, a CR just before the LF belongs to the separator.\<close>

fun splitLines :: "string \<Rightarrow> string list" where
  "splitLines [] = [[]]"
| "splitLines [c] = (if c = CHR 0x0A then [[], []] else [[c]])"
| "splitLines (c # d # cs) =
     (if c = CHR 0x0D \<and> d = CHR 0x0A then [] # splitLines cs
      else if c = CHR 0x0A then [] # splitLines (d # cs)
      else (case splitLines (d # cs) of [] \<Rightarrow> [[c]] | l # ls \<Rightarrow> (c # l) # ls))"

text \<open>\<^verbatim>\<open>xs.join(sep)\<close>.\<close>

fun join :: "string \<Rightarrow> string list \<Rightarrow> string" where
  "join sep [] = []"
| "join sep [x] = x"
| "join sep (x # y # ys) = x @ sep @ join sep (y # ys)"

text \<open>
  \<^verbatim>\<open>parseInt(s, 10)\<close>: leading white space is skipped, one sign is read, then the
  longest run of decimal digits; without a digit the result is NaN, here \<open>None\<close>.
  The value is an unbounded integer (doubles are exact up to \<open>2^53\<close>).
\<close>

definition digitsValue :: "string \<Rightarrow> nat" where
  "digitsValue ds = foldl (\<lambda>a d. 10 * a + digitValue d) 0 ds"

definition parseInt :: "string \<Rightarrow> int option" where
  "parseInt s =
     (let t = dropWhile isSpace s;
          neg = (case t of [] \<Rightarrow> False | c # _ \<Rightarrow> c = CHR ''-'');
          u = (case t of [] \<Rightarrow> [] | c # r \<Rightarrow> if c = CHR ''-'' \<or> c = CHR ''+'' then r else t);
          ds = takeWhile isDigit u
      in if ds = [] then None
         else Some (if neg then - int (digitsValue ds) else int (digitsValue ds)))"

text \<open>\<^verbatim>\<open>x || 1\<close> on the result of \<^verbatim>\<open>parseInt\<close>: NaN and 0 are falsy.\<close>

definition orOne :: "int option \<Rightarrow> int" where
  "orOne x = (case x of None \<Rightarrow> 1 | Some n \<Rightarrow> if n = 0 then 1 else n)"

section \<open>The dictionary loader (\<^verbatim>\<open>src/lib/oracle.js\<close>, \<^verbatim>\<open>loadDictionary\<close>)\<close>

text \<open>The module state: the parallel arrays and the membership set (\<^verbatim>\<open>null\<close> is \<open>None\<close>).\<close>

record vocabulary =
  words :: "string list"
  counts :: "int list"
  allowedSet :: "string set option"

definition initialVocabulary :: vocabulary where
  "initialVocabulary = \<lparr>words = [], counts = [], allowedSet = None\<rparr>"

text \<open>The body of the loop over the lines.\<close>

definition loadLine :: "vocabulary \<Rightarrow> string \<Rightarrow> vocabulary" where
  "loadLine st line =
     (if line = [] then st
      else if startsWithHash (trim line) then st
      else let parts = splitRuns isTab line in
        if 2 \<le> length parts then
          (let w = trim (parts ! 0);
               c = orOne (parseInt (trim (parts ! 1)))
           in if w \<noteq> [] then st\<lparr>words := words st @ [w], counts := counts st @ [c]\<rparr> else st)
        else st)"

text \<open>
  The file is \<open>None\<close> when reading it throws: the error is logged and the state stays
  as it was.
\<close>

definition loadDictionary :: "string option \<Rightarrow> vocabulary" where
  "loadDictionary file =
     (case file of
        None \<Rightarrow> initialVocabulary
      | Some raw \<Rightarrow>
          (let st = foldl loadLine initialVocabulary (splitLines raw)
           in if words st = [] then st else st\<lparr>allowedSet := Some (set (words st))\<rparr>))"

section \<open>The tokenizer\<close>

definition normalizeText :: "string \<Rightarrow> string" where
  "normalizeText s =
     (if s = [] then []
      else trim (replaceRuns (\<lambda>c. \<not> isLetter c) (toLowerCase s)))"

definition tokenize :: "string \<Rightarrow> string list" where
  "tokenize s =
     (let t = normalizeText s
      in if t = [] then [] else filter (\<lambda>x. x \<noteq> []) (splitRuns isSpace t))"

section \<open>Numbers\<close>

text \<open>
  The weights are JavaScript numbers, that is doubles.  A number is a finite real, one of
  the two infinities or NaN; a sum, a product or a power whose value lies beyond
  \<^verbatim>\<open>Number.MAX_VALUE\<close> is an infinity.  The rounding of finite results is not
  modelled: a finite result is the exact real.
\<close>

datatype number = Finite real | PosInfinity | NegInfinity | NaN

definition MAX_VALUE :: real where
  "MAX_VALUE = (2 ^ 53 - 1) * 2 ^ 971"

definition fromReal :: "real \<Rightarrow> number" where
  "fromReal x =
     (if MAX_VALUE < x then PosInfinity else if x < - MAX_VALUE then NegInfinity else Finite x)"

text \<open>\<^verbatim>\<open>a + b\<close>.\<close>

fun numAdd :: "number \<Rightarrow> number \<Rightarrow> number" where
  "numAdd NaN b = NaN"
| "numAdd a NaN = NaN"
| "numAdd (Finite a) (Finite b) = fromReal (a + b)"
| "numAdd PosInfinity NegInfinity = NaN"
| "numAdd NegInfinity PosInfinity = NaN"
| "numAdd PosInfinity b = PosInfinity"
| "numAdd a PosInfinity = PosInfinity"
| "numAdd NegInfinity b = NegInfinity"
| "numAdd a NegInfinity = NegInfinity"

text \<open>\<^verbatim>\<open>a * b\<close>; 0 times an infinity is NaN.\<close>

fun numMul :: "number \<Rightarrow> number \<Rightarrow> number" where
  "numMul NaN b = NaN"
| "numMul a NaN = NaN"
| "numMul (Finite a) (Finite b) = fromReal (a * b)"
| "numMul (Finite a) PosInfinity =
     (if a = 0 then NaN else if 0 < a then PosInfinity else NegInfinity)"
| "numMul (Finite a) NegInfinity =
     (if a = 0 then NaN else if 0 < a then NegInfinity else PosInfinity)"
| "numMul PosInfinity (Finite b) =
     (if b = 0 then NaN else if 0 < b then PosInfinity else NegInfinity)"
| "numMul NegInfinity (Finite b) =
     (if b = 0 then NaN else if 0 < b then NegInfinity else PosInfinity)"
| "numMul PosInfinity PosInfinity = PosInfinity"
| "numMul NegInfinity NegInfinity = PosInfinity"
| "numMul PosInfinity NegInfinity = NegInfinity"
| "numMul NegInfinity PosInfinity = NegInfinity"

text \<open>\<^verbatim>\<open>a > b\<close> and \<^verbatim>\<open>a <= b\<close>; every comparison with NaN is false.\<close>

fun numGt :: "number \<Rightarrow> number \<Rightarrow> bool" where
  "numGt NaN b = False"
| "numGt a NaN = False"
| "numGt (Finite a) (Finite b) = (b < a)"
| "numGt PosInfinity PosInfinity = False"
| "numGt PosInfinity b = True"
| "numGt a PosInfinity = False"
| "numGt NegInfinity b = False"
| "numGt a NegInfinity = True"

fun numLe :: "number \<Rightarrow> number \<Rightarrow> bool" where
  "numLe NaN b = False"
| "numLe a NaN = False"
| "numLe (Finite a) (Finite b) = (a \<le> b)"
| "numLe NegInfinity b = True"
| "numLe a PosInfinity = True"
| "numLe PosInfinity b = False"
| "numLe a NegInfinity = False"

text \<open>
  \<^verbatim>\<open>Math.pow(x, y)\<close> on finite arguments: 1 for the exponent 0, the real power of a
  positive base, and for a negative base the signed power when the exponent is an
  integer, NaN when it is not.  A power beyond \<^verbatim>\<open>Number.MAX_VALUE\<close> is an
  infinity; underflow to 0 belongs to the rounding and is not modelled.
\<close>

definition Math_pow :: "real \<Rightarrow> real \<Rightarrow> number" where
  "Math_pow x y =
     (if y = 0 then Finite 1
      else if 0 < x then fromReal (x powr y)
      else if x = 0 then (if 0 < y then Finite 0 else PosInfinity)
      else if y = real_of_int \<lfloor>y\<rfloor> then
        (if even \<lfloor>y\<rfloor> then fromReal ((- x) powr y) else fromReal (- ((- x) powr y)))
      else NaN)"

section \<open>The weighted sampler\<close>

text \<open>\<^verbatim>\<open>cumulativeFromArray\<close>: the running sums and the total, in one pass.\<close>

fun cumulativeFrom :: "number \<Rightarrow> number list \<Rightarrow> number list \<times> number" where
  "cumulativeFrom s [] = ([], s)"
| "cumulativeFrom s (a # as) =
     (case cumulativeFrom (numAdd s a) as of (cum, tot) \<Rightarrow> (numAdd s a # cum, tot))"

definition cumulativeFromArray :: "number list \<Rightarrow> number list \<times> number" where
  "cumulativeFromArray arr = cumulativeFrom (Finite 0) arr"

text \<open>
  The binary search of \<^verbatim>\<open>sampleIndexFromCum\<close>, from \<open>lo = 0\<close> and
  \<open>hi = length - 1\<close> (on the empty array the loop is not entered and 0 is returned,
  with \<open>hi = -1\<close> in the source and \<open>hi = 0\<close> here).
\<close>

function searchCum :: "number list \<Rightarrow> number \<Rightarrow> nat \<Rightarrow> nat \<Rightarrow> nat" where
  "searchCum cumArr r lo hi =
     (if lo < hi then
        (let mid = (lo + hi) div 2
         in if numGt (cumArr ! mid) r then searchCum cumArr r lo mid
            else searchCum cumArr r (mid + 1) hi)
      else lo)"
  by pat_completeness auto
termination
  by (relation "measure (\<lambda>(cumArr, r, lo, hi). hi - lo)") auto

text \<open>
  \<^verbatim>\<open>sampleIndexFromCum\<close>; the value \<open>u\<close> of \<^verbatim>\<open>Math.random()\<close>, a number in
  \<open>[0, 1)\<close>, is an argument.
\<close>

definition sampleIndexFromCum :: "real \<Rightarrow> number list \<Rightarrow> number \<Rightarrow> nat" where
  "sampleIndexFromCum u cumArr tot =
     (let r = numMul (Finite u) tot in searchCum cumArr r 0 (length cumArr - 1))"

text \<open>
  The reshaped weights of sampled mode: \<^verbatim>\<open>tempExp\<close> and \<^verbatim>\<open>modWeights\<close>.  The
  temperature is a finite number, so \<^verbatim>\<open>tempExp\<close> is one too, at most \<open>10\<^sup>8\<close>.
\<close>

definition tempExp :: "real \<Rightarrow> real" where
  "tempExp temperature = 1 / max (1 / 10 ^ 8) temperature"

definition reshape :: "int list \<Rightarrow> real \<Rightarrow> number list" where
  "reshape cs temperature = map (\<lambda>c. Math_pow (real_of_int c) (tempExp temperature)) cs"

text \<open>
  The sampling loop of sampled mode.  \<open>rnd k\<close> is the value of the \<open>k\<close>-th call of
  \<^verbatim>\<open>Math.random()\<close>; every round that does not leave the loop pushes one token,
  which is why the loop ends.
\<close>

function sampleLoop ::
  "string list \<Rightarrow> (nat \<Rightarrow> real) \<Rightarrow> int \<Rightarrow> nat \<Rightarrow> string list \<Rightarrow> number list \<Rightarrow> string list" where
  "sampleLoop ws rnd len k tokens modWeights =
     (if int (length tokens) < len then
        (case cumulativeFromArray modWeights of (cum, tot) \<Rightarrow>
           if numLe tot (Finite 0) then tokens
           else (let idx = sampleIndexFromCum (rnd k) cum tot;
                     w = ws ! idx
                 in sampleLoop ws rnd len (k + 1) (tokens @ [w]) (modWeights[idx := Finite 0])))
      else tokens)"
  by pat_completeness auto
termination
  by (relation "measure (\<lambda>(ws, rnd, len, k, tokens, modWeights). nat (len - int (length tokens)))") auto

section \<open>The generator (\<^verbatim>\<open>predict\<close>)\<close>

text \<open>
  The options of \<^verbatim>\<open>predict\<close>; \<open>None\<close> is a property that is absent.  A length
  that is given is an integer, a temperature that is given is a number, the size, the
  mode and the model are strings.
\<close>

record options =
  opt_length :: "int option"
  opt_size :: "string option"
  opt_mode :: "string option"
  opt_temperature :: "real option"
  opt_model :: "string option"

record GenerationResult =
  res_text :: string
  res_tokens :: "string list"
  res_warning :: "string option"

text \<open>What a call does: it throws, it returns a result, or it runs off its end.\<close>

datatype outcome = Throws string | Returns GenerationResult | ReturnsUndefined

text \<open>What one call of the external generator does: it fails, or it answers with a text
  (an answer without text counts as the empty text, as in the source).\<close>

datatype reply = Fails string | Answers string

definition DEFAULT_TEMPERATURE :: real where
  "DEFAULT_TEMPERATURE = 7 / 10"

definition maxAttempts :: nat where
  "maxAttempts = 3"

definition capitalizeSentence :: "string \<Rightarrow> string" where
  "capitalizeSentence s = (case s of [] \<Rightarrow> [] | c # cs \<Rightarrow> toUpperChar c # cs @ ''.'')"

text \<open>\<^verbatim>\<open>Array.from(new Set(xs))\<close>: the elements in the order of their first occurrence.\<close>

fun setInsert :: "'a list \<Rightarrow> 'a list \<Rightarrow> 'a list" where
  "setInsert acc [] = acc"
| "setInsert acc (x # xs) = setInsert (if x \<in> set acc then acc else acc @ [x]) xs"

definition arrayFromSet :: "'a list \<Rightarrow> 'a list" where
  "arrayFromSet xs = setInsert [] xs"

text \<open>The first truthy element of \<^verbatim>\<open>promptUnique\<close>, or \<^verbatim>\<open>null\<close>.\<close>

definition firstSeed :: "string list \<Rightarrow> string option" where
  "firstSeed promptUnique = find (\<lambda>t. t \<noteq> []) promptUnique"

text \<open>\<^verbatim>\<open>for (const p of promptUnique) if (p && !tokens.includes(p)) tokens.push(p)\<close>.\<close>

fun pushPrompt :: "string list \<Rightarrow> string list \<Rightarrow> string list" where
  "pushPrompt tokens [] = tokens"
| "pushPrompt tokens (p # ps) =
     pushPrompt (if p \<noteq> [] \<and> p \<notin> set tokens then tokens @ [p] else tokens) ps"

text \<open>
  \<^verbatim>\<open>xs.sort(cmp)\<close> with a comparator: the stable sort, as insertion from the right.
  An element goes before the first element that does not have to precede it.
\<close>

fun insertBy :: "('a \<Rightarrow> 'a \<Rightarrow> int) \<Rightarrow> 'a \<Rightarrow> 'a list \<Rightarrow> 'a list" where
  "insertBy cmp x [] = [x]"
| "insertBy cmp x (y # ys) = (if cmp x y \<le> 0 then x # y # ys else y # insertBy cmp x ys)"

definition sortBy :: "('a \<Rightarrow> 'a \<Rightarrow> int) \<Rightarrow> 'a list \<Rightarrow> 'a list" where
  "sortBy cmp xs = foldr (insertBy cmp) xs []"

text \<open>The indices of \<^verbatim>\<open>counts\<close> by descending count.\<close>

definition rankedIdxs :: "int list \<Rightarrow> nat list" where
  "rankedIdxs cs = sortBy (\<lambda>a b. cs ! b - cs ! a) [0..<length cs]"

text \<open>The filling loop of ranked mode, over the sorted indices.\<close>

fun fillRanked :: "string list \<Rightarrow> int \<Rightarrow> string list \<Rightarrow> nat list \<Rightarrow> string list" where
  "fillRanked ws len tokens [] = tokens"
| "fillRanked ws len tokens (i # idxs) =
     (if int (length tokens) < len then
        (let w = ws ! i
         in fillRanked ws len (if w \<notin> set tokens then tokens @ [w] else tokens) idxs)
      else tokens)"

text \<open>\<^verbatim>\<open>words.indexOf(seed)\<close>, \<open>None\<close> for \<open>-1\<close>.\<close>

fun indexOf :: "'a list \<Rightarrow> 'a \<Rightarrow> nat option" where
  "indexOf [] x = None"
| "indexOf (y # ys) x = (if y = x then Some 0 else map_option Suc (indexOf ys x))"

text \<open>
  The weights sampled mode starts from: the reshaped counts, with the weight of the
  seed set to 0 when the seed is a word of the vocabulary.
\<close>

definition initialWeights :: "vocabulary \<Rightarrow> real \<Rightarrow> string option \<Rightarrow> number list" where
  "initialWeights st temperature seed =
     (let modWeights = reshape (counts st) temperature
      in case seed of
           None \<Rightarrow> modWeights
         | Some t \<Rightarrow> (case indexOf (words st) t of
                       None \<Rightarrow> modWeights
                     | Some seedIdx \<Rightarrow> modWeights[seedIdx := Finite 0]))"

text \<open>The branch \<^verbatim>\<open>mode === "mostLikely" || mode === "sample"\<close>.\<close>

definition localModes ::
  "vocabulary \<Rightarrow> (nat \<Rightarrow> real) \<Rightarrow> string \<Rightarrow> int \<Rightarrow> real \<Rightarrow> string list \<Rightarrow> GenerationResult" where
  "localModes st rnd mode len temperature promptUnique =
     (let seed = firstSeed promptUnique;
          tokens = (case seed of None \<Rightarrow> [] | Some t \<Rightarrow> [t])
      in if mode = ''mostLikely'' then
           (let tokens = pushPrompt tokens promptUnique;
                idxs = rankedIdxs (counts st);
                tokens = fillRanked (words st) len tokens idxs
            in \<lparr>res_text = capitalizeSentence (join '' '' tokens), res_tokens = tokens,
                res_warning = None\<rparr>)
         else
           (let modWeights = initialWeights st temperature seed;
                tokens = pushPrompt tokens promptUnique;
                tokens = sampleLoop (words st) rnd len 0 tokens modWeights
            in \<lparr>res_text = capitalizeSentence (join '' '' tokens), res_tokens = tokens,
                res_warning = None\<rparr>))"

text \<open>\<^verbatim>\<open>fallback.warning = ...; return fallback\<close> on the outcome of the inner call.\<close>

definition withWarning :: "string \<Rightarrow> outcome \<Rightarrow> outcome" where
  "withWarning msg fb =
     (case fb of
        Returns r \<Rightarrow> Returns (r\<lparr>res_warning := Some msg\<rparr>)
      | Throws e \<Rightarrow> Throws e
      | ReturnsUndefined \<Rightarrow> Throws ''TypeError'')"

text \<open>The two warnings of a fallback.\<close>

definition violationWarning :: string where
  "violationWarning =
     ''LLM did not adhere to vocabulary constraints; returned fallback sampled prediction.''"

definition errorWarning :: "string \<Rightarrow> string" where
  "errorWarning msg = ''LLM error: '' @ msg"

text \<open>\<^verbatim>\<open>allowedSet && allowedSet.has(t)\<close>.\<close>

definition inAllowed :: "vocabulary \<Rightarrow> string \<Rightarrow> bool" where
  "inAllowed st t = (case allowedSet st of None \<Rightarrow> False | Some S \<Rightarrow> t \<in> S)"

text \<open>
  \<^verbatim>\<open>mergedAllowedSet\<close>, the set named in the instruction sent to the generator:
  the vocabulary and the words of the prompt.
\<close>

definition mergedAllowedSet :: "vocabulary \<Rightarrow> string list \<Rightarrow> string set" where
  "mergedAllowedSet st promptUnique =
     (case allowedSet st of None \<Rightarrow> {} | Some S \<Rightarrow> S) \<union> set promptUnique"

text \<open>The tokens of an answer: \<^verbatim>\<open>raw\<close>, \<^verbatim>\<open>text\<close> and \<^verbatim>\<open>toks\<close> of the source.\<close>

definition responseTokens :: "string \<Rightarrow> string list" where
  "responseTokens response =
     (let raw = trim response;
          text = trim (replaceRuns isNewline raw)
      in tokenize text)"

text \<open>
  The attempt loop of delegated mode.  \<open>ext n\<close> is what the \<open>n\<close>-th call of the
  external generator does (the prompt, the model and the temperature sent to it are the
  same at every attempt); \<open>fallback\<close> is the outcome of the inner call of
  \<^verbatim>\<open>predict\<close> in sampled mode.  The second component counts the calls of the
  generator.
\<close>

function attemptLoop ::
  "vocabulary \<Rightarrow> (nat \<Rightarrow> reply) \<Rightarrow> outcome \<Rightarrow> nat \<Rightarrow> outcome \<times> nat" where
  "attemptLoop st ext fallback attempt =
     (if attempt \<le> maxAttempts then
        (case ext attempt of
           Fails msg \<Rightarrow> (withWarning (errorWarning msg) fallback, attempt)
         | Answers response \<Rightarrow>
             (let toks = responseTokens response;
                  bad = filter (\<lambda>t. \<not> inAllowed st t) toks
              in if bad = [] \<and> toks \<noteq> [] then
                   (Returns \<lparr>res_text = capitalizeSentence (join '' '' toks), res_tokens = toks,
                             res_warning = None\<rparr>, attempt)
                 else if attempt < maxAttempts then attemptLoop st ext fallback (attempt + 1)
                 else (withWarning violationWarning fallback, attempt)))
      else (ReturnsUndefined, attempt - 1))"
  by pat_completeness auto
termination
  by (relation "measure (\<lambda>(st, ext, fallback, attempt). Suc maxAttempts - attempt)") auto

text \<open>The options as \<^verbatim>\<open>predict\<close> reads them.\<close>

definition modeOf :: "options \<Rightarrow> string" where
  "modeOf opts = (case opt_mode opts of None \<Rightarrow> ''llm'' | Some m \<Rightarrow> if m = [] then ''llm'' else m)"

definition lengthOf :: "options \<Rightarrow> int" where
  "lengthOf opts =
     (let size = (case opt_size opts of None \<Rightarrow> ''short'' | Some s \<Rightarrow> if s = [] then ''short'' else s);
          defaultLength = (if size = ''long'' then 140 else 12)
      in case opt_length opts of
           None \<Rightarrow> defaultLength
         | Some n \<Rightarrow> max 1 (if n = 0 then 12 else n))"

definition temperatureOf :: "options \<Rightarrow> real" where
  "temperatureOf opts = (case opt_temperature opts of None \<Rightarrow> DEFAULT_TEMPERATURE | Some t \<Rightarrow> t)"

definition isLocal :: "string \<Rightarrow> bool" where
  "isLocal mode = (mode = ''mostLikely'' \<or> mode = ''sample'')"

text \<open>The options of the inner call: \<^verbatim>\<open>{ length, mode: "sample", temperature }\<close>.\<close>

definition fallbackOptions :: "int \<Rightarrow> real \<Rightarrow> options" where
  "fallbackOptions len temperature =
     \<lparr>opt_length = Some len, opt_size = None, opt_mode = Some ''sample'',
      opt_temperature = Some temperature, opt_model = None\<rparr>"

text \<open>
  \<^verbatim>\<open>predict(prompt, opts)\<close> on the module state \<open>st\<close>, with the random numbers
  \<open>rnd\<close> and the external generator \<open>ext\<close>.  The result is the outcome and the number
  of calls of the external generator.
\<close>

function predict ::
  "vocabulary \<Rightarrow> (nat \<Rightarrow> real) \<Rightarrow> (nat \<Rightarrow> reply) \<Rightarrow> string \<Rightarrow> options \<Rightarrow> outcome \<times> nat" where
  "predict st rnd ext prompt opts =
     (if words st = [] then (Throws ''Oracle: dictionary not loaded or empty'', 0)
      else if isLocal (modeOf opts) then
        (Returns (localModes st rnd (modeOf opts) (lengthOf opts) (temperatureOf opts)
                    (arrayFromSet (tokenize prompt))), 0)
      else
        attemptLoop st ext
          (fst (predict st rnd ext prompt (fallbackOptions (lengthOf opts) (temperatureOf opts))))
          1)"
  by pat_completeness auto
termination
  by (relation "measure (\<lambda>(st, rnd, ext, prompt, opts). if isLocal (modeOf opts) then 0 else 1)")
     (auto simp: isLocal_def modeOf_def fallbackOptions_def)

section \<open>The dictionary builder (\<^verbatim>\<open>passages/\<close>, the script that writes the dictionary)\<close>

text \<open>
  The object \<^verbatim>\<open>counts\<close> is an association list in the order in which the keys
  were first written, which is the order \<^verbatim>\<open>Object.keys\<close> lists them in.
  \<^verbatim>\<open>counts[w] = (counts[w] || 0) + 1\<close>:
\<close>

fun bump :: "(string \<times> int) list \<Rightarrow> string \<Rightarrow> (string \<times> int) list" where
  "bump [] w = [(w, 1)]"
| "bump ((v, c) # kvs) w = (if v = w then (v, c + 1) # kvs else (v, c) # bump kvs w)"

definition countWords :: "string \<Rightarrow> (string \<times> int) list" where
  "countWords text =
     (let normalized = replaceRuns (\<lambda>c. \<not> isLetter c) (toLowerCase text)
      in foldl (\<lambda>cnt w. if w = [] then cnt else bump cnt w) [] (splitRuns isSpace normalized))"

text \<open>\<^verbatim>\<open>counts[w]\<close> for a key of the object.\<close>

definition countOf :: "(string \<times> int) list \<Rightarrow> string \<Rightarrow> int" where
  "countOf cnt w = (case map_of cnt w of None \<Rightarrow> 0 | Some c \<Rightarrow> c)"

text \<open>
  \<^verbatim>\<open>a.localeCompare(b)\<close> on words of lower-case ASCII letters, which is all the
  keys are here: in the root collation it is the sign of the comparison in the
  lexicographic order.
\<close>

definition localeCompare :: "string \<Rightarrow> string \<Rightarrow> int" where
  "localeCompare a b = (if a = b then 0 else if a < b then - 1 else 1)"

text \<open>The comparator \<^verbatim>\<open>counts[b] - counts[a] || a.localeCompare(b)\<close>.\<close>

definition keyOrder :: "(string \<times> int) list \<Rightarrow> string \<Rightarrow> string \<Rightarrow> int" where
  "keyOrder cnt a b =
     (let d = countOf cnt b - countOf cnt a in if d \<noteq> 0 then d else localeCompare a b)"

definition sortedKeys :: "(string \<times> int) list \<Rightarrow> string list" where
  "sortedKeys cnt = sortBy (keyOrder cnt) (map fst cnt)"

text \<open>The entries that are written, one line each, in this order.\<close>

definition selected :: "string \<Rightarrow> (string \<times> int) list" where
  "selected text =
     (let cnt = countWords text;
          keys = sortedKeys cnt
      in map (\<lambda>word. (word, countOf cnt word)) (filter (\<lambda>word. 10 \<le> countOf cnt word) keys))"

section \<open>Notions of the specification\<close>

text \<open>
  The acceptance condition of delegated mode as the specification words it: the
  tokenization of the answer is not empty and every token is a member of the
  membership set of the vocabulary.
\<close>

definition accepts :: "vocabulary \<Rightarrow> string \<Rightarrow> bool" where
  "accepts st s = (responseTokens s \<noteq> [] \<and> (\<forall>t\<in>set (responseTokens s). inAllowed st t))"

text \<open>A reply that leads to a retry or to the fallback for a constraint violation.\<close>

definition rejected :: "vocabulary \<Rightarrow> reply \<Rightarrow> bool" where
  "rejected st rp = (case rp of Fails m \<Rightarrow> False | Answers s \<Rightarrow> \<not> accepts st s)"

text \<open>
  The loader as the specification words it, line by line: a blank line and a comment
  line give nothing; the other lines are split at the tabs; a line without a second
  field or with an empty word gives nothing; otherwise the line gives the word and the
  count, read from the second field by the rule \<open>cnt\<close>.
\<close>

definition lineEntry :: "(string \<Rightarrow> int) \<Rightarrow> string \<Rightarrow> (string \<times> int) option" where
  "lineEntry cnt line =
     (if line = [] \<or> startsWithHash (trim line) then None
      else case splitRuns isTab line of
             f0 # f1 # rest \<Rightarrow> if trim f0 = [] then None else Some (trim f0, cnt (trim f1))
           | _ \<Rightarrow> None)"

definition fileEntries :: "(string \<Rightarrow> int) \<Rightarrow> string \<Rightarrow> (string \<times> int) list" where
  "fileEntries cnt raw = List.map_filter (lineEntry cnt) (splitLines raw)"

text \<open>The count that is 1 exactly when parsing fails, as the specification has it.\<close>

definition claimedCount :: "string \<Rightarrow> int" where
  "claimedCount field = (case parseInt field of None \<Rightarrow> 1 | Some n \<Rightarrow> n)"

text \<open>The count that is 1 when parsing fails and when the parsed number is 0.\<close>

definition loadedCount :: "string \<Rightarrow> int" where
  "loadedCount field = (case parseInt field of None \<Rightarrow> 1 | Some n \<Rightarrow> if n = 0 then 1 else n)"

text \<open>
  Ranked mode as the specification words it: the vocabulary words in descending
  frequency order (a stable sort), and the output made of the unique words of the prompt
  followed by these words, without the ones already emitted, up to the requested length.
\<close>

definition rankedWords :: "vocabulary \<Rightarrow> string list" where
  "rankedWords st =
     map (\<lambda>i. words st ! i) (sort_key (\<lambda>i. - (counts st ! i)) [0..<length (counts st)])"

definition rankedSpec :: "string list \<Rightarrow> string list \<Rightarrow> int \<Rightarrow> string list" where
  "rankedSpec promptUnique ranked len =
     promptUnique @
     take (nat (len - int (length promptUnique)))
       (arrayFromSet (filter (\<lambda>w. w \<notin> set promptUnique) ranked))"

text \<open>
  The example of the specification: the dictionary file with \<open>fate\<close> 20,
  \<open>doom\<close> 15 and \<open>glory\<close> 12, loaded by the loader.
\<close>

definition exampleDictionary :: string where
  "exampleDictionary =
     ''# Format: word'' @ [CHR 0x09] @ ''count'' @ [CHR 0x0A, CHR 0x0A] @
     ''fate'' @ [CHR 0x09] @ ''20'' @ [CHR 0x0A] @
     ''doom'' @ [CHR 0x09] @ ''15'' @ [CHR 0x0A] @
     ''glory'' @ [CHR 0x09] @ ''12'' @ [CHR 0x0A]"

definition exampleVocabulary :: vocabulary where
  "exampleVocabulary = loadDictionary (Some exampleDictionary)"

definition exampleOptions :: "string option \<Rightarrow> int \<Rightarrow> options" where
  "exampleOptions mode len =
     \<lparr>opt_length = Some len, opt_size = None, opt_mode = mode, opt_temperature = Some 1,
      opt_model = None\<rparr>"

text \<open>A dictionary file with comment lines, an empty line, malformed lines and counts that
  do not parse or are 0.\<close>

definition sampleFile :: string where
  "sampleFile = ''# header'' @ [CHR 0x0A] @ [CHR 0x0A] @ ''  # note'' @ [CHR 0x0D, CHR 0x0A] @
     ''fate'' @ [CHR 0x09] @ ''20'' @ [CHR 0x0A] @
     ''no second field'' @ [CHR 0x0A] @
     [CHR 0x09] @ ''7'' @ [CHR 0x0A] @
     ''doom'' @ [CHR 0x09, CHR 0x09] @ '' 15 times'' @ [CHR 0x0D, CHR 0x0A] @
     ''glory'' @ [CHR 0x09] @ ''many'' @ [CHR 0x0A] @
     ''zeus'' @ [CHR 0x09] @ ''0'' @ [CHR 0x0A]"

text \<open>A corpus in which three words occur at least ten times, two of them equally often.\<close>

definition sampleCorpus :: string where
  "sampleCorpus = ''b a b a b a, b a b a b a b a B a b a b!a c c c c c c c c c c c zeus''"

text \<open>
  The indices that the sampling loop draws, in the order of the draws: the loop of
  \<open>sampleLoop\<close> with the indices kept instead of the words; \<open>n\<close> is the number of
  tokens at the start.
\<close>

function drawn :: "(nat \<Rightarrow> real) \<Rightarrow> int \<Rightarrow> nat \<Rightarrow> nat \<Rightarrow> number list \<Rightarrow> nat list" where
  "drawn rnd len k n modWeights =
     (if int n < len then
        (case cumulativeFromArray modWeights of (cum, tot) \<Rightarrow>
           if numLe tot (Finite 0) then []
           else (let idx = sampleIndexFromCum (rnd k) cum tot
                 in idx # drawn rnd len (k + 1) (n + 1) (modWeights[idx := Finite 0])))
      else [])"
  by pat_completeness auto

termination
  by (relation "measure (\<lambda>(rnd, len, k, n, modWeights). nat (len - int n))") auto

text \<open>The options of a call in sampled mode with length 5 and temperature 0.001.\<close>

definition overflowOptions :: options where
  "overflowOptions =
     \<lparr>opt_length = Some 5, opt_size = None, opt_mode = Some ''sample'',
      opt_temperature = Some (1 / 1000), opt_model = None\<rparr>"

declare drawn.simps [simp del]

declare searchCum.simps [simp del]
declare sampleLoop.simps [simp del]
declare attemptLoop.simps [simp del]
declare predict.simps [simp del]

section \<open>Options and dispatch\<close>

lemma lengthOf_ge_1: "1 \<le> lengthOf opts"
  by (simp add: lengthOf_def Let_def split: option.split)

lemma lengthOf_Some: "opt_length opts = Some n \<Longrightarrow> lengthOf opts = max 1 (if n = 0 then 12 else n)"
  by (simp add: lengthOf_def)

lemma lengthOf_fallbackOptions: "lengthOf (fallbackOptions (lengthOf opts) t) = lengthOf opts"
  using lengthOf_ge_1 [of opts]
  by (simp add: lengthOf_Some [of _ "lengthOf opts"] fallbackOptions_def max_def)

lemma temperatureOf_fallbackOptions: "temperatureOf (fallbackOptions n t) = t"
  by (simp add: temperatureOf_def fallbackOptions_def)

lemma modeOf_fallbackOptions: "modeOf (fallbackOptions n t) = ''sample''"
  by (simp add: modeOf_def fallbackOptions_def)

lemma lengthOf_mode_update: "lengthOf (opts\<lparr>opt_mode := m\<rparr>) = lengthOf opts"
  by (simp add: lengthOf_def)

lemma temperatureOf_mode_update: "temperatureOf (opts\<lparr>opt_mode := m\<rparr>) = temperatureOf opts"
  by (simp add: temperatureOf_def)

lemma modeOf_sample_update: "modeOf (opts\<lparr>opt_mode := Some ''sample''\<rparr>) = ''sample''"
  by (simp add: modeOf_def)

lemma predict_empty: "words st = [] \<Longrightarrow> predict st rnd ext prompt opts = (Throws ''Oracle: dictionary not loaded or empty'', 0)"
  by (simp add: predict.simps)

lemma predict_local:
  "words st \<noteq> [] \<Longrightarrow> isLocal (modeOf opts) \<Longrightarrow>
   predict st rnd ext prompt opts =
     (Returns (localModes st rnd (modeOf opts) (lengthOf opts) (temperatureOf opts)
        (arrayFromSet (tokenize prompt))), 0)"
  by (simp add: predict.simps)

lemma predict_delegated:
  "words st \<noteq> [] \<Longrightarrow> \<not> isLocal (modeOf opts) \<Longrightarrow>
   predict st rnd ext prompt opts =
     attemptLoop st ext
       (Returns (localModes st rnd ''sample'' (lengthOf opts) (temperatureOf opts)
          (arrayFromSet (tokenize prompt)))) 1"
  by (simp add: predict.simps [of st rnd ext prompt opts] predict_local
      modeOf_fallbackOptions lengthOf_fallbackOptions temperatureOf_fallbackOptions isLocal_def)

lemma predict_sample_update:
  "words st \<noteq> [] \<Longrightarrow>
   predict st rnd ext prompt (opts\<lparr>opt_mode := Some ''sample''\<rparr>) =
     (Returns (localModes st rnd ''sample'' (lengthOf opts) (temperatureOf opts)
        (arrayFromSet (tokenize prompt))), 0)"
  by (simp add: predict_local modeOf_sample_update lengthOf_mode_update temperatureOf_mode_update isLocal_def)

lemma filter_bad_empty: "(filter (\<lambda>t. \<not> inAllowed st t) toks = []) = (\<forall>t\<in>set toks. inAllowed st t)"
  by (simp add: filter_empty_conv)

lemma attemptLoop_fails:
  "attempt \<le> maxAttempts \<Longrightarrow> ext attempt = Fails m \<Longrightarrow>
   attemptLoop st ext fb attempt = (withWarning (errorWarning m) fb, attempt)"
  by (simp add: attemptLoop.simps [of st ext fb attempt])

lemma attemptLoop_accept:
  "attempt \<le> maxAttempts \<Longrightarrow> ext attempt = Answers s \<Longrightarrow> accepts st s \<Longrightarrow>
   attemptLoop st ext fb attempt =
     (Returns \<lparr>res_text = capitalizeSentence (join '' '' (responseTokens s)),
               res_tokens = responseTokens s, res_warning = None\<rparr>, attempt)"
  by (simp add: attemptLoop.simps [of st ext fb attempt] filter_bad_empty Let_def accepts_def)

lemma attemptLoop_retry:
  "attempt < maxAttempts \<Longrightarrow> ext attempt = Answers s \<Longrightarrow>
   \<not> accepts st s \<Longrightarrow>
   attemptLoop st ext fb attempt = attemptLoop st ext fb (attempt + 1)"
  by (auto simp add: attemptLoop.simps [of st ext fb attempt] filter_bad_empty Let_def accepts_def)

lemma attemptLoop_exhausted:
  "ext maxAttempts = Answers s \<Longrightarrow>
   \<not> accepts st s \<Longrightarrow>
   attemptLoop st ext fb maxAttempts =
     (withWarning violationWarning fb, maxAttempts)"
  by (auto simp add: attemptLoop.simps [of st ext fb maxAttempts] filter_bad_empty Let_def accepts_def)

section \<open>Prompt words and the local modes\<close>

lemma set_setInsert: "set (setInsert acc xs) = set acc \<union> set xs"
  by (induction xs arbitrary: acc) auto

lemma distinct_setInsert: "distinct acc \<Longrightarrow> distinct (setInsert acc xs)"
  by (induction xs arbitrary: acc) auto

lemma set_arrayFromSet: "set (arrayFromSet xs) = set xs"
  by (simp add: arrayFromSet_def set_setInsert)

lemma distinct_arrayFromSet: "distinct (arrayFromSet xs)"
  by (simp add: arrayFromSet_def distinct_setInsert)

lemma tokenize_nonempty: "t \<in> set (tokenize s) \<Longrightarrow> t \<noteq> []"
  by (auto simp: tokenize_def Let_def split: if_splits)

lemma pushPrompt_fresh:
  "distinct (acc @ ps) \<Longrightarrow> \<forall>p\<in>set ps. p \<noteq> [] \<Longrightarrow> pushPrompt acc ps = acc @ ps"
  by (induction ps arbitrary: acc) auto

lemma pushPrompt_seed:
  assumes "distinct pu" and "\<forall>p\<in>set pu. p \<noteq> []"
  shows "pushPrompt (case firstSeed pu of None \<Rightarrow> [] | Some t \<Rightarrow> [t]) pu = pu"
proof (cases pu)
  case Nil
  then show ?thesis by (simp add: firstSeed_def)
next
  case (Cons p ps)
  with assms have "pushPrompt [p] ps = [p] @ ps"
    by (intro pushPrompt_fresh) auto
  with Cons assms show ?thesis by (simp add: firstSeed_def)
qed

lemma pushPrompt_promptUnique:
  "pushPrompt (case firstSeed (arrayFromSet (tokenize s)) of None \<Rightarrow> [] | Some t \<Rightarrow> [t])
     (arrayFromSet (tokenize s)) = arrayFromSet (tokenize s)"
  by (rule pushPrompt_seed) (auto simp: distinct_arrayFromSet set_arrayFromSet tokenize_nonempty)

lemma fillRanked_prefix:
  "\<exists>fs. fillRanked ws len tokens idxs = tokens @ fs \<and>
        int (length (tokens @ fs)) \<le> max (int (length tokens)) len"
proof (induction idxs arbitrary: tokens)
  case Nil
  then show ?case by simp
next
  case (Cons i idxs)
  show ?case
  proof (cases "int (length tokens) < len")
    case False
    then show ?thesis by simp
  next
    case True
    let ?t = "if ws ! i \<notin> set tokens then tokens @ [ws ! i] else tokens"
    from Cons.IH [of ?t] obtain fs where
      fs: "fillRanked ws len ?t idxs = ?t @ fs" "int (length (?t @ fs)) \<le> max (int (length ?t)) len"
      by blast
    from True have "max (int (length ?t)) len = len" by auto
    with fs True show ?thesis by (auto simp: Let_def)
  qed
qed

lemma sampleLoop_prefix:
  "\<exists>fs. sampleLoop ws rnd len k tokens mw = tokens @ fs \<and>
        int (length (tokens @ fs)) \<le> max (int (length tokens)) len"
proof (induction ws rnd len k tokens mw rule: sampleLoop.induct)
  case (1 ws rnd len k tokens mw)
  show ?case
  proof (cases "int (length tokens) < len")
    case False
    then show ?thesis by (simp add: sampleLoop.simps [of ws rnd len k tokens mw])
  next
    case True
    obtain cum tot where ct: "cumulativeFromArray mw = (cum, tot)" by (cases "cumulativeFromArray mw")
    show ?thesis
    proof (cases "numLe tot (Finite 0)")
      case True
      with ct \<open>int (length tokens) < len\<close> show ?thesis
        by (simp add: sampleLoop.simps [of ws rnd len k tokens mw])
    next
      case False
      let ?idx = "sampleIndexFromCum (rnd k) cum tot"
      let ?t = "tokens @ [ws ! ?idx]"
      from "1.IH" [OF True ct [symmetric] False refl refl] obtain fs where
        fs: "sampleLoop ws rnd len (k + 1) ?t (mw[?idx := Finite 0]) = ?t @ fs"
            "int (length (?t @ fs)) \<le> max (int (length ?t)) len"
        by blast
      from True have "max (int (length ?t)) len = len" by auto
      with fs True False ct show ?thesis
        by (auto simp: sampleLoop.simps [of ws rnd len k tokens mw] Let_def)
    qed
  qed
qed

lemma localModes_tokens:
  assumes "distinct pu" and "\<forall>p\<in>set pu. p \<noteq> []"
  shows "\<exists>fs. res_tokens (localModes st rnd mode len temperature pu) = pu @ fs \<and>
          int (length (pu @ fs)) \<le> max (int (length pu)) len"
proof (cases "mode = ''mostLikely''")
  case True
  with fillRanked_prefix [of "words st" len pu "rankedIdxs (counts st)"] show ?thesis
    by (simp add: localModes_def Let_def pushPrompt_seed [OF assms])
next
  case False
  with sampleLoop_prefix [of "words st" rnd len 0 pu
      "initialWeights st temperature (firstSeed pu)"] show ?thesis
    by (simp add: localModes_def Let_def pushPrompt_seed [OF assms])
qed

section \<open>The claims\<close>

text \<open>
  C2.  When the vocabulary is empty (no word was loaded), \<^verbatim>\<open>predict\<close> throws the
  error "dictionary not loaded or empty", whatever the seed phrase, the options, the
  random numbers and the external generator are, and it returns no result.
\<close>

theorem predict_vocabulary_unavailable:
  "words st = [] \<Longrightarrow>
   predict st rnd ext prompt opts = (Throws ''Oracle: dictionary not loaded or empty'', 0) \<and>
   (\<forall>r. fst (predict st rnd ext prompt opts) \<noteq> Returns r)"
  by (simp add: predict_empty)

theorem predict_vocabulary_unavailable_witness:
  "words (loadDictionary None) = [] \<and>
   predict (loadDictionary None) (\<lambda>k. 1 / 2) (\<lambda>n. Answers ''fate'') ''tell of doom''
     \<lparr>opt_length = Some 4, opt_size = None, opt_mode = None, opt_temperature = None,
      opt_model = None\<rparr> = (Throws ''Oracle: dictionary not loaded or empty'', 0)"
  using predict_vocabulary_unavailable [of "loadDictionary None" "\<lambda>k. 1 / 2"
      "\<lambda>n. Answers ''fate''" "''tell of doom''"
      "\<lparr>opt_length = Some 4, opt_size = None, opt_mode = None, opt_temperature = None,
        opt_model = None\<rparr>"]
  by (simp add: loadDictionary_def initialVocabulary_def)

lemma attemptLoop_outcome:
  assumes "a \<le> maxAttempts" and "attemptLoop st ext (Returns r0) a = (out, n)"
  shows "a \<le> n \<and> n \<le> maxAttempts \<and> (\<forall>k. a \<le> k \<and> k < n \<longrightarrow> rejected st (ext k)) \<and>
     ((\<exists>m. ext n = Fails m \<and> out = Returns (r0\<lparr>res_warning := Some (errorWarning m)\<rparr>)) \<or>
      (\<exists>s. ext n = Answers s \<and> accepts st s \<and>
           out = Returns \<lparr>res_text = capitalizeSentence (join '' '' (responseTokens s)),
                           res_tokens = responseTokens s, res_warning = None\<rparr>) \<or>
      (n = maxAttempts \<and> rejected st (ext n) \<and>
           out = Returns (r0\<lparr>res_warning := Some violationWarning\<rparr>)))"
  using assms
proof (induction "maxAttempts - a" arbitrary: a)
  case 0
  then have a: "a = maxAttempts" by simp
  show ?case
  proof (cases "ext maxAttempts")
    case (Fails m)
    with 0 a show ?thesis by (auto simp: attemptLoop_fails withWarning_def)
  next
    case (Answers s)
    show ?thesis
    proof (cases "accepts st s")
      case True
      with 0 a Answers show ?thesis by (auto simp: attemptLoop_accept)
    next
      case False
      with 0 a Answers show ?thesis
        by (auto simp: attemptLoop_exhausted withWarning_def rejected_def)
    qed
  qed
next
  case (Suc d)
  then have lt: "a < maxAttempts" by simp
  show ?case
  proof (cases "ext a")
    case (Fails m)
    with Suc.prems show ?thesis by (auto simp: attemptLoop_fails withWarning_def)
  next
    case (Answers s)
    show ?thesis
    proof (cases "accepts st s")
      case True
      with Suc.prems Answers show ?thesis by (auto simp: attemptLoop_accept)
    next
      case False
      with lt Answers Suc.prems have next_call: "attemptLoop st ext (Returns r0) (a + 1) = (out, n)"
        by (simp add: attemptLoop_retry)
      from Suc.hyps(2) have d: "d = maxAttempts - (a + 1)" by simp
      from lt have le: "a + 1 \<le> maxAttempts" by simp
      note IH = Suc.hyps(1) [OF d le next_call]
      have rej: "rejected st (ext a)" using Answers False by (simp add: rejected_def)
      have "\<forall>k. a \<le> k \<and> k < n \<longrightarrow> rejected st (ext k)"
      proof (intro allI impI)
        fix k assume k: "a \<le> k \<and> k < n"
        show "rejected st (ext k)"
        proof (cases "k = a")
          case True
          with rej show ?thesis by simp
        next
          case False
          with k have "a + 1 \<le> k \<and> k < n" by simp
          with IH show ?thesis by blast
        qed
      qed
      with IH show ?thesis by auto
    qed
  qed
qed

lemma attemptLoop_all_rejected:
  assumes "rejected st (ext 1)" "rejected st (ext 2)" "rejected st (ext 3)"
  shows "attemptLoop st ext fb 1 = (withWarning violationWarning fb, 3)"
proof -
  from assms obtain s1 s2 s3 where
    s: "ext 1 = Answers s1" "\<not> accepts st s1" "ext 2 = Answers s2" "\<not> accepts st s2"
       "ext 3 = Answers s3" "\<not> accepts st s3"
    by (auto simp: rejected_def split: reply.splits)
  have "attemptLoop st ext fb 1 = attemptLoop st ext fb 2"
    using attemptLoop_retry [of 1 ext s1 st fb] s by (simp add: maxAttempts_def eval_nat_numeral)
  also have "\<dots> = attemptLoop st ext fb 3"
    using attemptLoop_retry [of 2 ext s2 st fb] s by (simp add: maxAttempts_def eval_nat_numeral)
  also have "\<dots> = (withWarning violationWarning fb, 3)"
    using attemptLoop_exhausted [of ext s3 st fb] s by (simp add: maxAttempts_def eval_nat_numeral)
  finally show ?thesis .
qed

lemma violationWarning_nonempty: "violationWarning \<noteq> []"
  by (simp add: violationWarning_def)

lemma errorWarning_nonempty: "errorWarning m \<noteq> []"
  by (simp add: errorWarning_def)

lemma attemptLoop_skip:
  "a \<le> n \<Longrightarrow> n \<le> maxAttempts \<Longrightarrow> \<forall>k. a \<le> k \<and> k < n \<longrightarrow> rejected st (ext k) \<Longrightarrow>
   attemptLoop st ext fb a = attemptLoop st ext fb n"
proof (induction "n - a" arbitrary: a)
  case 0
  then show ?case by simp
next
  case (Suc d)
  then have lt: "a < n" by simp
  with Suc.prems have "rejected st (ext a)" by simp
  then obtain s where s: "ext a = Answers s" "\<not> accepts st s"
    by (auto simp: rejected_def split: reply.splits)
  from lt Suc.prems have "a < maxAttempts" by simp
  then have "attemptLoop st ext fb a = attemptLoop st ext fb (a + 1)"
    using s by (rule attemptLoop_retry)
  also have "\<dots> = attemptLoop st ext fb n"
    using Suc.hyps(2) lt Suc.prems by (intro Suc.hyps(1)) simp_all
  finally show ?case .
qed

text \<open>
  C1.  In delegated mode, on a loaded vocabulary: when each of the three answers of the
  external generator has a token outside the membership set of the vocabulary, the
  generator is called exactly three times and the result is the result of sampled mode
  for the same seed phrase, length and temperature, with the non-empty warning of a
  constraint violation; when a call of the generator fails (the first one, or one after
  rejected answers), no further call is made and the result is that of sampled mode with
  the warning that carries the error.
\<close>

theorem delegated_retries_then_falls_back:
  assumes "words st \<noteq> []" and "\<not> isLocal (modeOf opts)"
  shows "((\<forall>n\<in>{1, 2, 3}. \<exists>s t. ext n = Answers s \<and> t \<in> set (responseTokens s) \<and> \<not> inAllowed st t) \<longrightarrow>
          (\<exists>r. predict st rnd ext prompt (opts\<lparr>opt_mode := Some ''sample''\<rparr>) = (Returns r, 0) \<and>
               predict st rnd ext prompt opts = (Returns (r\<lparr>res_warning := Some violationWarning\<rparr>), 3) \<and>
               violationWarning \<noteq> [])) \<and>
         (\<forall>n m. 1 \<le> n \<and> n \<le> 3 \<and> (\<forall>k. 1 \<le> k \<and> k < n \<longrightarrow> rejected st (ext k)) \<and>
                ext n = Fails m \<longrightarrow>
          (\<exists>r. predict st rnd ext prompt (opts\<lparr>opt_mode := Some ''sample''\<rparr>) = (Returns r, 0) \<and>
               predict st rnd ext prompt opts = (Returns (r\<lparr>res_warning := Some (errorWarning m)\<rparr>), n) \<and>
               errorWarning m \<noteq> []))"
proof -
  let ?R = "localModes st rnd ''sample'' (lengthOf opts) (temperatureOf opts)
              (arrayFromSet (tokenize prompt))"
  have sample: "predict st rnd ext prompt (opts\<lparr>opt_mode := Some ''sample''\<rparr>) = (Returns ?R, 0)"
    by (rule predict_sample_update [OF assms(1)])
  have loop: "predict st rnd ext prompt opts = attemptLoop st ext (Returns ?R) 1"
    by (rule predict_delegated [OF assms])
  have violation: "predict st rnd ext prompt opts = (Returns (?R\<lparr>res_warning := Some violationWarning\<rparr>), 3)"
    if bad: "\<forall>n\<in>{1, 2, 3}. \<exists>s t. ext n = Answers s \<and> t \<in> set (responseTokens s) \<and> \<not> inAllowed st t"
  proof -
    from bad have "rejected st (ext 1)" "rejected st (ext 2)" "rejected st (ext 3)"
      by (auto simp: rejected_def accepts_def)
    then have "attemptLoop st ext (Returns ?R) 1 = (withWarning violationWarning (Returns ?R), 3)"
      by (rule attemptLoop_all_rejected)
    with loop show ?thesis by (simp add: withWarning_def)
  qed
  have failure: "predict st rnd ext prompt opts = (Returns (?R\<lparr>res_warning := Some (errorWarning m)\<rparr>), n)"
    if "1 \<le> n \<and> n \<le> 3 \<and> (\<forall>k. 1 \<le> k \<and> k < n \<longrightarrow> rejected st (ext k)) \<and> ext n = Fails m"
    for n m
  proof -
    from that have n: "1 \<le> n" "n \<le> maxAttempts" and fails: "ext n = Fails m"
      and rej: "\<forall>k. 1 \<le> k \<and> k < n \<longrightarrow> rejected st (ext k)"
      by (simp_all add: maxAttempts_def)
    have "attemptLoop st ext (Returns ?R) 1 = attemptLoop st ext (Returns ?R) n"
      by (rule attemptLoop_skip [OF n rej])
    also have "\<dots> = (withWarning (errorWarning m) (Returns ?R), n)"
      using n(2) fails by (rule attemptLoop_fails)
    finally show ?thesis using loop by (simp add: withWarning_def)
  qed
  from sample violation failure show ?thesis
    by (simp add: violationWarning_nonempty errorWarning_nonempty)
qed

lemma exampleVocabulary_eq:
  "exampleVocabulary =
     \<lparr>words = [''fate'', ''doom'', ''glory''], counts = [20, 15, 12],
      allowedSet = Some {''fate'', ''doom'', ''glory''}\<rparr>"
  by (simp add: exampleVocabulary_def exampleDictionary_def loadDictionary_def loadLine_def
      initialVocabulary_def trim_def isSpace_def startsWithHash_def isTab_def orOne_def
      parseInt_def isDigit_def digitsValue_def digitValue_def insert_commute)

lemmas tokenize_simps =
  tokenize_def normalizeText_def toLowerCase_def toLowerChar_def isLetter_def trim_def
  isSpace_def upperLetters_def lowerLetters_def

lemmas responseTokens_simps = responseTokens_def isNewline_def tokenize_simps

lemma tokenize_tell_of_doom: "tokenize ''tell of doom'' = [''tell'', ''of'', ''doom'']"
  by (simp add: tokenize_simps)

lemma tokenize_five: "tokenize ''tell of doom and glory'' = [''tell'', ''of'', ''doom'', ''and'', ''glory'']"
  by (simp add: tokenize_simps)

lemma responseTokens_zeus: "responseTokens ''zeus rises'' = [''zeus'', ''rises'']"
  by (simp add: responseTokens_simps)

lemma responseTokens_echo: "responseTokens ''tell of doom'' = [''tell'', ''of'', ''doom'']"
  by (simp add: responseTokens_simps)

lemma responseTokens_doom_fate: "responseTokens ''Doom, fate!'' = [''doom'', ''fate'']"
  by (simp add: responseTokens_simps)

lemmas capitalize_simps = capitalizeSentence_def toUpperChar_def upperLetters_def lowerLetters_def

lemma example_sample:
  "localModes exampleVocabulary (\<lambda>k. 1 / 2) ''sample'' 4 1 [''tell'', ''of'', ''doom''] =
     \<lparr>res_text = ''Tell of doom doom.'', res_tokens = [''tell'', ''of'', ''doom'', ''doom''],
      res_warning = None\<rparr>"
  by (simp add: exampleVocabulary_eq localModes_def firstSeed_def initialWeights_def reshape_def
      tempExp_def Math_pow_def fromReal_def MAX_VALUE_def cumulativeFromArray_def
      sampleIndexFromCum_def sampleLoop.simps searchCum.simps capitalize_simps)

lemma example_options:
  "modeOf (exampleOptions None n) = ''llm''"
  "modeOf (exampleOptions (Some ''sample'') n) = ''sample''"
  "modeOf (exampleOptions (Some ''mostLikely'') n) = ''mostLikely''"
  "1 \<le> n \<Longrightarrow> lengthOf (exampleOptions m n) = n"
  "temperatureOf (exampleOptions m n) = 1"
  by (simp_all add: exampleOptions_def modeOf_def lengthOf_def temperatureOf_def)

theorem delegated_retries_then_falls_back_witness:
  "words exampleVocabulary \<noteq> [] \<and> \<not> isLocal (modeOf (exampleOptions None 4)) \<and>
   ''zeus'' \<in> set (responseTokens ''zeus rises'') \<and> \<not> inAllowed exampleVocabulary ''zeus'' \<and>
   predict exampleVocabulary (\<lambda>k. 1 / 2) (\<lambda>n. Answers ''zeus rises'') ''tell of doom''
       (exampleOptions None 4) =
     (Returns \<lparr>res_text = ''Tell of doom doom.'',
               res_tokens = [''tell'', ''of'', ''doom'', ''doom''],
               res_warning = Some violationWarning\<rparr>, 3) \<and>
   predict exampleVocabulary (\<lambda>k. 1 / 2) (\<lambda>n. Fails ''connection refused'') ''tell of doom''
       (exampleOptions None 4) =
     (Returns \<lparr>res_text = ''Tell of doom doom.'',
               res_tokens = [''tell'', ''of'', ''doom'', ''doom''],
               res_warning = Some (errorWarning ''connection refused'')\<rparr>, 1)"
proof -
  let ?st = exampleVocabulary and ?opts = "exampleOptions None 4"
  have h1: "words ?st \<noteq> []" by (simp add: exampleVocabulary_eq)
  have h2: "\<not> isLocal (modeOf ?opts)" by (simp add: example_options isLocal_def)
  have h3: "\<forall>n\<in>{1, 2, 3}. \<exists>s t. (\<lambda>n::nat. Answers ''zeus rises'') n = Answers s \<and>
        t \<in> set (responseTokens s) \<and> \<not> inAllowed ?st t"
    by (auto simp: responseTokens_zeus inAllowed_def exampleVocabulary_eq)
  have sample: "predict ?st (\<lambda>k. 1 / 2) ext ''tell of doom'' (?opts\<lparr>opt_mode := Some ''sample''\<rparr>) =
      (Returns \<lparr>res_text = ''Tell of doom doom.'',
                res_tokens = [''tell'', ''of'', ''doom'', ''doom''], res_warning = None\<rparr>, 0)" for ext
    using h1
    by (simp add: predict_sample_update example_options tokenize_tell_of_doom arrayFromSet_def
        example_sample)
  from delegated_retries_then_falls_back [OF h1 h2, of "\<lambda>n. Answers ''zeus rises''" "\<lambda>k. 1 / 2"
      "''tell of doom''"] h3 sample
  have A: "predict ?st (\<lambda>k. 1 / 2) (\<lambda>n. Answers ''zeus rises'') ''tell of doom'' ?opts =
     (Returns \<lparr>res_text = ''Tell of doom doom.'',
               res_tokens = [''tell'', ''of'', ''doom'', ''doom''],
               res_warning = Some violationWarning\<rparr>, 3)"
    by auto
  from delegated_retries_then_falls_back [OF h1 h2, of "\<lambda>n. Fails ''connection refused''"
      "\<lambda>k. 1 / 2" "''tell of doom''", THEN conjunct2, rule_format, of 1 "''connection refused''"]
    sample
  have B: "predict ?st (\<lambda>k. 1 / 2) (\<lambda>n. Fails ''connection refused'') ''tell of doom'' ?opts =
     (Returns \<lparr>res_text = ''Tell of doom doom.'',
               res_tokens = [''tell'', ''of'', ''doom'', ''doom''],
               res_warning = Some (errorWarning ''connection refused'')\<rparr>, 1)"
    by auto
  have "''zeus'' \<in> set (responseTokens ''zeus rises'')" "\<not> inAllowed ?st ''zeus''"
    by (simp_all add: responseTokens_zeus inAllowed_def exampleVocabulary_eq)
  with h1 h2 A B show ?thesis by blast
qed

text \<open>
  C3.  In delegated mode the answer returned after \<open>n\<close> calls comes without a warning
  if and only if the \<open>n\<close>-th answer is accepted, that is its tokenization is not empty
  and all its tokens are in the membership set of the vocabulary (not in the merged
  set); the result then consists of these tokens.  All answers before it were rejected.
  An answer that echoes a word of the prompt that is not in the vocabulary is followed
  by a retry or, at the third attempt, by the fallback with its warning; a result
  without warning has only vocabulary words.
\<close>

theorem delegated_accepts_only_vocabulary:
  assumes "words st \<noteq> []" and "\<not> isLocal (modeOf opts)"
    and "predict st rnd ext prompt opts = (out, n)"
  shows "1 \<le> n \<and> n \<le> 3 \<and> (\<forall>k. 1 \<le> k \<and> k < n \<longrightarrow> rejected st (ext k)) \<and>
     (\<exists>r. out = Returns r \<and>
        (res_warning r = None \<longleftrightarrow> (\<exists>s. ext n = Answers s \<and> accepts st s)) \<and>
        (\<forall>s. ext n = Answers s \<and> accepts st s \<longrightarrow>
           r = \<lparr>res_text = capitalizeSentence (join '' '' (responseTokens s)),
                res_tokens = responseTokens s, res_warning = None\<rparr>) \<and>
        (res_warning r = None \<longrightarrow>
           res_tokens r \<noteq> [] \<and> (\<forall>t\<in>set (res_tokens r). inAllowed st t)) \<and>
        (\<forall>k s t. 1 \<le> k \<and> k \<le> n \<and> ext k = Answers s \<and> t \<in> set (responseTokens s) \<and>
           t \<in> mergedAllowedSet st (arrayFromSet (tokenize prompt)) \<and> \<not> inAllowed st t \<longrightarrow>
           k < n \<or> (k = 3 \<and> res_warning r = Some violationWarning)))"
proof -
  let ?R = "localModes st rnd ''sample'' (lengthOf opts) (temperatureOf opts)
              (arrayFromSet (tokenize prompt))"
  from assms have loop: "attemptLoop st ext (Returns ?R) 1 = (out, n)"
    by (simp add: predict_delegated)
  have "1 \<le> maxAttempts" by (simp add: maxAttempts_def)
  note O = attemptLoop_outcome [OF this loop]
  then have n: "1 \<le> n" "n \<le> 3" and rej: "\<forall>k. 1 \<le> k \<and> k < n \<longrightarrow> rejected st (ext k)"
    by (simp_all add: maxAttempts_def)
  from O consider
      (fails) m where "ext n = Fails m" "out = Returns (?R\<lparr>res_warning := Some (errorWarning m)\<rparr>)"
    | (accepted) s where "ext n = Answers s" "accepts st s"
        "out = Returns \<lparr>res_text = capitalizeSentence (join '' '' (responseTokens s)),
                         res_tokens = responseTokens s, res_warning = None\<rparr>"
    | (exhausted) "n = 3" "rejected st (ext n)"
        "out = Returns (?R\<lparr>res_warning := Some violationWarning\<rparr>)"
    by (auto simp: maxAttempts_def)
  note cases = this
  have echo: "k < n \<or> (k = 3 \<and> (\<exists>r. out = Returns r \<and> res_warning r = Some violationWarning))"
    if "k \<le> n" "ext k = Answers s" "t \<in> set (responseTokens s)" "\<not> inAllowed st t" for k s t
  proof (cases "k = n")
    case False
    with that show ?thesis by simp
  next
    case True
    from that have "\<not> accepts st s" by (auto simp: accepts_def)
    with True that cases show ?thesis by (cases rule: cases) auto
  qed
  from cases show ?thesis
  proof cases
    case fails
    with n rej echo show ?thesis
      by (auto simp: rejected_def accepts_def)
  next
    case accepted
    with n rej echo show ?thesis
      by (auto simp: accepts_def)
  next
    case exhausted
    with n rej show ?thesis
      by (auto simp: rejected_def accepts_def split: reply.splits)
  qed
qed

theorem delegated_accepts_only_vocabulary_witness:
  "words exampleVocabulary \<noteq> [] \<and> \<not> isLocal (modeOf (exampleOptions None 4)) \<and>
   predict exampleVocabulary (\<lambda>k. 1 / 2)
       (\<lambda>n. if n = 1 then Answers ''tell of doom'' else Answers ''Doom, fate!'')
       ''tell of doom'' (exampleOptions None 4) =
     (Returns \<lparr>res_text = ''Doom fate.'', res_tokens = [''doom'', ''fate''],
               res_warning = None\<rparr>, 2) \<and>
   rejected exampleVocabulary (Answers ''tell of doom'') \<and>
   accepts exampleVocabulary ''Doom, fate!'' \<and>
   ''tell'' \<in> mergedAllowedSet exampleVocabulary (arrayFromSet (tokenize ''tell of doom'')) \<and>
   \<not> inAllowed exampleVocabulary ''tell''"
proof -
  let ?st = exampleVocabulary and ?opts = "exampleOptions None 4"
  let ?ext = "\<lambda>n::nat. if n = 1 then Answers ''tell of doom'' else Answers ''Doom, fate!''"
  let ?R = "localModes ?st (\<lambda>k. 1 / 2) ''sample'' (lengthOf ?opts) (temperatureOf ?opts)
              (arrayFromSet (tokenize ''tell of doom''))"
  have h1: "words ?st \<noteq> []" by (simp add: exampleVocabulary_eq)
  have h2: "\<not> isLocal (modeOf ?opts)" by (simp add: example_options isLocal_def)
  have no: "\<not> accepts ?st ''tell of doom''"
    by (simp add: accepts_def responseTokens_echo inAllowed_def exampleVocabulary_eq)
  have yes: "accepts ?st ''Doom, fate!''"
    by (simp add: accepts_def responseTokens_doom_fate inAllowed_def exampleVocabulary_eq)
  have "attemptLoop ?st ?ext (Returns ?R) 1 = attemptLoop ?st ?ext (Returns ?R) 2"
    using attemptLoop_retry [of 1 ?ext "''tell of doom''" ?st "Returns ?R"] no
    by (simp add: maxAttempts_def eval_nat_numeral)
  also have "\<dots> = (Returns \<lparr>res_text = capitalizeSentence (join '' '' (responseTokens ''Doom, fate!'')),
               res_tokens = responseTokens ''Doom, fate!'', res_warning = None\<rparr>, 2)"
    using attemptLoop_accept [of 2 ?ext "''Doom, fate!''" ?st "Returns ?R"] yes
    by (simp add: maxAttempts_def)
  finally have h3: "predict ?st (\<lambda>k. 1 / 2) ?ext ''tell of doom'' ?opts =
     (Returns \<lparr>res_text = ''Doom fate.'', res_tokens = [''doom'', ''fate''],
               res_warning = None\<rparr>, 2)"
    by (simp add: predict_delegated [OF h1 h2] responseTokens_doom_fate capitalize_simps)
  have tell: "''tell'' \<in> mergedAllowedSet ?st (arrayFromSet (tokenize ''tell of doom''))"
    by (simp add: mergedAllowedSet_def tokenize_tell_of_doom arrayFromSet_def)
  from delegated_accepts_only_vocabulary [OF h1 h2 h3]
  have R: "\<And>k. 1 \<le> k \<Longrightarrow> k < 2 \<Longrightarrow> rejected ?st (?ext k)"
    by blast
  have "rejected ?st (?ext 1)" by (rule R) simp_all
  then have rej: "rejected ?st (Answers ''tell of doom'')" by simp
  have "\<not> inAllowed ?st ''tell''"
    by (simp add: inAllowed_def exampleVocabulary_eq)
  with rej yes h1 h2 h3 tell show ?thesis by simp
qed

text \<open>
  C10.  In ranked and in sampled mode the tokens of the result start with all the unique
  words of the prompt; the length bounds only what is appended after them.  When the
  prompt has more unique words than the requested length, the result is exactly these
  words and so is longer than the requested length.
\<close>

theorem prompt_words_before_length_check:
  assumes "words st \<noteq> []" and "isLocal (modeOf opts)"
  shows "\<exists>r fs. predict st rnd ext prompt opts = (Returns r, 0) \<and>
           res_tokens r = arrayFromSet (tokenize prompt) @ fs \<and>
           int (length (res_tokens r)) \<le> max (int (length (arrayFromSet (tokenize prompt)))) (lengthOf opts) \<and>
           (lengthOf opts \<le> int (length (arrayFromSet (tokenize prompt))) \<longrightarrow> fs = []) \<and>
           (lengthOf opts < int (length (arrayFromSet (tokenize prompt))) \<longrightarrow>
              lengthOf opts < int (length (res_tokens r))) \<and>
           (\<forall>n. opt_length opts = Some n \<and> n < int (length (arrayFromSet (tokenize prompt))) \<longrightarrow>
              n < int (length (res_tokens r)))"
proof -
  let ?pu = "arrayFromSet (tokenize prompt)"
  let ?r = "localModes st rnd (modeOf opts) (lengthOf opts) (temperatureOf opts) ?pu"
  have "distinct ?pu" and "\<forall>p\<in>set ?pu. p \<noteq> []"
    by (auto simp: distinct_arrayFromSet set_arrayFromSet tokenize_nonempty)
  from localModes_tokens [OF this] obtain fs where
    fs: "res_tokens ?r = ?pu @ fs" "int (length (?pu @ fs)) \<le> max (int (length ?pu)) (lengthOf opts)"
    by blast
  have "predict st rnd ext prompt opts = (Returns ?r, 0)"
    by (rule predict_local [OF assms])
  moreover from fs have "lengthOf opts \<le> int (length ?pu) \<longrightarrow> fs = []" by auto
  moreover from fs have "\<forall>n. n < int (length ?pu) \<longrightarrow> n < int (length (res_tokens ?r))" by auto
  ultimately show ?thesis using fs by auto
qed

theorem prompt_words_before_length_check_witness:
  "words exampleVocabulary \<noteq> [] \<and>
   isLocal (modeOf (exampleOptions (Some ''mostLikely'') 2)) \<and>
   isLocal (modeOf (exampleOptions (Some ''sample'') 2)) \<and>
   lengthOf (exampleOptions (Some ''mostLikely'') 2) <
     int (length (arrayFromSet (tokenize ''tell of doom and glory''))) \<and>
   (\<exists>r. predict exampleVocabulary (\<lambda>k. 1 / 2) (\<lambda>n. Fails []) ''tell of doom and glory''
           (exampleOptions (Some ''mostLikely'') 2) = (Returns r, 0) \<and>
        res_tokens r = [''tell'', ''of'', ''doom'', ''and'', ''glory''] \<and>
        2 < int (length (res_tokens r))) \<and>
   (\<exists>r. predict exampleVocabulary (\<lambda>k. 1 / 2) (\<lambda>n. Fails []) ''tell of doom and glory''
           (exampleOptions (Some ''sample'') 2) = (Returns r, 0) \<and>
        res_tokens r = [''tell'', ''of'', ''doom'', ''and'', ''glory''] \<and>
        2 < int (length (res_tokens r)))"
proof -
  let ?st = exampleVocabulary
  have h1: "words ?st \<noteq> []" by (simp add: exampleVocabulary_eq)
  have h2: "isLocal (modeOf (exampleOptions (Some ''mostLikely'') 2))"
    and h3: "isLocal (modeOf (exampleOptions (Some ''sample'') 2))"
    by (simp_all add: example_options isLocal_def)
  have pu: "arrayFromSet (tokenize ''tell of doom and glory'') =
      [''tell'', ''of'', ''doom'', ''and'', ''glory'']"
    by (simp add: tokenize_five arrayFromSet_def)
  have len: "lengthOf (exampleOptions m 2) = 2" for m
    by (simp add: example_options)
  from prompt_words_before_length_check [OF h1 h2, of "\<lambda>k. 1 / 2" "\<lambda>n. Fails []"
      "''tell of doom and glory''"]
  have A: "\<exists>r. predict ?st (\<lambda>k. 1 / 2) (\<lambda>n. Fails []) ''tell of doom and glory''
           (exampleOptions (Some ''mostLikely'') 2) = (Returns r, 0) \<and>
        res_tokens r = [''tell'', ''of'', ''doom'', ''and'', ''glory''] \<and>
        2 < int (length (res_tokens r))"
    by (auto simp: pu len)
  from prompt_words_before_length_check [OF h1 h3, of "\<lambda>k. 1 / 2" "\<lambda>n. Fails []"
      "''tell of doom and glory''"]
  have B: "\<exists>r. predict ?st (\<lambda>k. 1 / 2) (\<lambda>n. Fails []) ''tell of doom and glory''
           (exampleOptions (Some ''sample'') 2) = (Returns r, 0) \<and>
        res_tokens r = [''tell'', ''of'', ''doom'', ''and'', ''glory''] \<and>
        2 < int (length (res_tokens r))"
    by (auto simp: pu len)
  from h1 h2 h3 A B show ?thesis by (simp add: pu len)
qed

lemma setInsert_append:
  "setInsert acc xs = acc @ setInsert [] (filter (\<lambda>y. y \<notin> set acc) xs)"
proof (induction "length xs" arbitrary: xs acc rule: less_induct)
  case less
  show ?case
  proof (cases xs)
    case Nil
    then show ?thesis by simp
  next
    case (Cons y ys)
    show ?thesis
    proof (cases "y \<in> set acc")
      case True
      with Cons less [of ys acc] show ?thesis by simp
    next
      case False
      have "length (filter (\<lambda>z. z \<notin> set acc) ys) < length xs"
        using Cons by (simp add: le_imp_less_Suc)
      from less [OF this, of "[y]"]
      have "setInsert [y] (filter (\<lambda>z. z \<notin> set acc) ys) =
            [y] @ setInsert [] (filter (\<lambda>z. z \<notin> set (acc @ [y])) ys)"
        by (simp add: conj_commute)
      with Cons False less [of ys "acc @ [y]"] show ?thesis by simp
    qed
  qed
qed

lemma arrayFromSet_Cons:
  "arrayFromSet (x # xs) = x # arrayFromSet (filter (\<lambda>y. y \<noteq> x) xs)"
  using setInsert_append [of "[x]" xs] by (simp add: arrayFromSet_def)

lemma fillRanked_spec:
  "fillRanked ws len tokens idxs =
     tokens @ take (nat (len - int (length tokens)))
       (arrayFromSet (filter (\<lambda>w. w \<notin> set tokens) (map (\<lambda>i. ws ! i) idxs)))"
proof (induction idxs arbitrary: tokens)
  case Nil
  then show ?case by (simp add: arrayFromSet_def)
next
  case (Cons i idxs)
  show ?case
  proof (cases "int (length tokens) < len")
    case False
    then show ?thesis by simp
  next
    case True
    show ?thesis
    proof (cases "ws ! i \<in> set tokens")
      case True
      with \<open>int (length tokens) < len\<close> Cons.IH [of tokens] show ?thesis by simp
    next
      case False
      from True obtain n where n: "nat (len - int (length tokens)) = Suc n"
        by (cases "nat (len - int (length tokens))") auto
      then have n': "nat (len - int (length (tokens @ [ws ! i]))) = n" by simp
      have "filter (\<lambda>y. y \<noteq> ws ! i) (filter (\<lambda>w. w \<notin> set tokens) (map (\<lambda>i. ws ! i) idxs)) =
            filter (\<lambda>w. w \<notin> set (tokens @ [ws ! i])) (map (\<lambda>i. ws ! i) idxs)"
        by (simp add: conj_commute)
      with False True n n' Cons.IH [of "tokens @ [ws ! i]"] show ?thesis
        by (simp add: arrayFromSet_Cons Let_def)
    qed
  qed
qed

lemma insertBy_insort_key:
  "insertBy (\<lambda>a b. cs ! b - cs ! a) x ys = insort_key (\<lambda>i. - (cs ! i)) x ys"
  for cs :: "int list"
  by (induction ys) auto

lemma rankedIdxs_sort_key:
  "rankedIdxs cs = sort_key (\<lambda>i. - (cs ! i)) [0..<length cs]"
proof -
  have "foldr (insertBy (\<lambda>a b. cs ! b - cs ! a)) xs [] = foldr (insort_key (\<lambda>i. - (cs ! i))) xs []"
    for xs
    by (induction xs) (simp_all add: insertBy_insort_key)
  then show ?thesis by (simp add: rankedIdxs_def sortBy_def sort_key_def)
qed

lemma localModes_ranked:
  assumes "distinct pu" and "\<forall>p\<in>set pu. p \<noteq> []"
  shows "res_tokens (localModes st rnd ''mostLikely'' len temperature pu) =
           rankedSpec pu (rankedWords st) len"
  by (simp add: localModes_def Let_def pushPrompt_seed [OF assms] fillRanked_spec
      rankedIdxs_sort_key rankedSpec_def rankedWords_def)

lemma localModes_text:
  "res_text (localModes st rnd mode len temperature pu) =
     capitalizeSentence (join '' '' (res_tokens (localModes st rnd mode len temperature pu))) \<and>
   res_warning (localModes st rnd mode len temperature pu) = None"
  by (simp add: localModes_def Let_def)

lemma example_rankedWords: "rankedWords exampleVocabulary = [''fate'', ''doom'', ''glory'']"
  by (simp add: rankedWords_def exampleVocabulary_eq sort_key_def upt_conv_Cons)

text \<open>
  C4.  In ranked mode, on a loaded vocabulary, the tokens of the result are the unique
  words of the prompt in the order of their first occurrence, followed by the vocabulary
  words in descending frequency order (stable), without the words already emitted, until
  the requested length is reached or the vocabulary is exhausted; the text is the
  capitalized sentence of these tokens.  For the vocabulary fate 20, doom 15, glory 12,
  the seed "tell of doom" and length 4 the tokens are tell, of, doom, fate and the text
  is "Tell of doom fate.".
\<close>

theorem ranked_mode_output:
  assumes "words st \<noteq> []" and "modeOf opts = ''mostLikely''"
  shows "(\<exists>r. predict st rnd ext prompt opts = (Returns r, 0) \<and>
            res_tokens r = rankedSpec (arrayFromSet (tokenize prompt)) (rankedWords st) (lengthOf opts) \<and>
            res_text r = capitalizeSentence (join '' '' (res_tokens r)) \<and>
            res_warning r = None) \<and>
         predict exampleVocabulary rnd ext ''tell of doom'' (exampleOptions (Some ''mostLikely'') 4) =
           (Returns \<lparr>res_text = ''Tell of doom fate.'',
                     res_tokens = [''tell'', ''of'', ''doom'', ''fate''],
                     res_warning = None\<rparr>, 0)"
proof -
  let ?pu = "arrayFromSet (tokenize prompt)"
  have pu: "distinct ?pu" "\<forall>p\<in>set ?pu. p \<noteq> []"
    by (auto simp: distinct_arrayFromSet set_arrayFromSet tokenize_nonempty)
  from assms have "predict st rnd ext prompt opts =
      (Returns (localModes st rnd ''mostLikely'' (lengthOf opts) (temperatureOf opts) ?pu), 0)"
    by (simp add: predict_local isLocal_def)
  then have general: "\<exists>r. predict st rnd ext prompt opts = (Returns r, 0) \<and>
            res_tokens r = rankedSpec ?pu (rankedWords st) (lengthOf opts) \<and>
            res_text r = capitalizeSentence (join '' '' (res_tokens r)) \<and>
            res_warning r = None"
    using localModes_ranked [OF pu] localModes_text by simp
  have "predict exampleVocabulary rnd ext ''tell of doom'' (exampleOptions (Some ''mostLikely'') 4) =
           (Returns \<lparr>res_text = ''Tell of doom fate.'',
                     res_tokens = [''tell'', ''of'', ''doom'', ''fate''],
                     res_warning = None\<rparr>, 0)"
    by (simp add: predict_local isLocal_def example_options exampleVocabulary_eq
        tokenize_tell_of_doom arrayFromSet_def localModes_def firstSeed_def rankedIdxs_def
        sortBy_def upt_conv_Cons capitalize_simps)
  with general show ?thesis by simp
qed

theorem ranked_mode_output_witness:
  "words exampleVocabulary \<noteq> [] \<and>
   modeOf (exampleOptions (Some ''mostLikely'') 4) = ''mostLikely'' \<and>
   rankedSpec (arrayFromSet (tokenize ''tell of doom'')) (rankedWords exampleVocabulary)
       (lengthOf (exampleOptions (Some ''mostLikely'') 4)) =
     [''tell'', ''of'', ''doom'', ''fate''] \<and>
   (\<exists>r. predict exampleVocabulary (\<lambda>k. 0) (\<lambda>n. Fails []) ''tell of doom''
           (exampleOptions (Some ''mostLikely'') 4) = (Returns r, 0) \<and>
        res_tokens r = [''tell'', ''of'', ''doom'', ''fate''] \<and>
        res_text r = ''Tell of doom fate.'')"
proof -
  have h1: "words exampleVocabulary \<noteq> []" by (simp add: exampleVocabulary_eq)
  have h2: "modeOf (exampleOptions (Some ''mostLikely'') 4) = ''mostLikely''"
    by (simp add: example_options)
  have spec: "rankedSpec (arrayFromSet (tokenize ''tell of doom'')) (rankedWords exampleVocabulary)
       (lengthOf (exampleOptions (Some ''mostLikely'') 4)) = [''tell'', ''of'', ''doom'', ''fate'']"
    by (simp add: rankedSpec_def example_rankedWords tokenize_tell_of_doom arrayFromSet_def
        example_options)
  from ranked_mode_output [OF h1 h2, of "\<lambda>k. 0" "\<lambda>n. Fails []" "''tell of doom''"] spec
  have "\<exists>r. predict exampleVocabulary (\<lambda>k. 0) (\<lambda>n. Fails []) ''tell of doom''
           (exampleOptions (Some ''mostLikely'') 4) = (Returns r, 0) \<and>
        res_tokens r = [''tell'', ''of'', ''doom'', ''fate''] \<and>
        res_text r = ''Tell of doom fate.''"
    by (auto simp: capitalize_simps)
  with h1 h2 spec show ?thesis by blast
qed

lemma indexOf_Some: "indexOf xs x = Some j \<Longrightarrow> j < length xs \<and> xs ! j = x"
  by (induction xs arbitrary: j) (auto split: if_splits)

lemma example_sample_call:
  "predict exampleVocabulary (\<lambda>k. 1 / 2) ext ''tell of doom'' (exampleOptions (Some ''sample'') 4) =
     (Returns \<lparr>res_text = ''Tell of doom doom.'',
               res_tokens = [''tell'', ''of'', ''doom'', ''doom''], res_warning = None\<rparr>, 0)"
  by (simp add: predict_local isLocal_def example_options exampleVocabulary_eq [THEN arg_cong [of _ _ words]]
      tokenize_tell_of_doom arrayFromSet_def example_sample)

lemma loadLine_lineEntry:
  "loadLine st line =
     (case lineEntry loadedCount line of
        None \<Rightarrow> st
      | Some (w, c) \<Rightarrow> st\<lparr>words := words st @ [w], counts := counts st @ [c]\<rparr>)"
proof (cases "splitRuns isTab line")
  case Nil
  then show ?thesis by (simp add: loadLine_def lineEntry_def)
next
  case (Cons f0 fs)
  show ?thesis
  proof (cases fs)
    case Nil
    with Cons show ?thesis by (simp add: loadLine_def lineEntry_def)
  next
    case (Cons f1 rest)
    with \<open>splitRuns isTab line = f0 # fs\<close> show ?thesis
      by (simp add: loadLine_def lineEntry_def loadedCount_def orOne_def Let_def)
  qed
qed

lemma foldl_loadLine:
  "foldl loadLine st ls =
     st\<lparr>words := words st @ map fst (List.map_filter (lineEntry loadedCount) ls),
        counts := counts st @ map snd (List.map_filter (lineEntry loadedCount) ls)\<rparr>"
proof (induction ls arbitrary: st)
  case Nil
  then show ?case by (simp add: List.map_filter_simps)
next
  case (Cons l ls)
  have "foldl loadLine st (l # ls) = foldl loadLine (loadLine st l) ls" by simp
  also note Cons.IH [of "loadLine st l"]
  finally show ?case
    by (cases "lineEntry loadedCount l") (auto simp: loadLine_lineEntry [of st l])
qed

text \<open>
  C8, as stated, fails on a count of 0: parsing "0" succeeds with the value 0, and the
  loader stores the count 1.
\<close>

theorem loader_count_counterexample:
  "parseInt ''0'' = Some 0 \<and>
   fileEntries claimedCount (''zeus'' @ [CHR 0x09] @ ''0'') = [(''zeus'', 0)] \<and>
   counts (loadDictionary (Some (''zeus'' @ [CHR 0x09] @ ''0''))) = [1] \<and>
   counts (loadDictionary (Some (''zeus'' @ [CHR 0x09] @ ''0''))) \<noteq>
     map snd (fileEntries claimedCount (''zeus'' @ [CHR 0x09] @ ''0''))"
  by (simp add: loadDictionary_def loadLine_def initialVocabulary_def trim_def isSpace_def
      startsWithHash_def isTab_def orOne_def parseInt_def isDigit_def digitsValue_def
      digitValue_def fileEntries_def lineEntry_def claimedCount_def)

text \<open>
  C8, amended.  The loader goes through the file line by line and never fails: a file
  that cannot be read leaves the vocabulary empty.  It skips the empty lines and the
  lines that begin with \<open>#\<close> after white space, splits every other line at its runs
  of tabs, skips the line when there is no second field or the trimmed word is empty,
  and otherwise appends the word and the count to the two arrays, which have the same
  length; the count is the parsed integer, and 1 when parsing fails or gives 0.
\<close>

theorem loader_entries:
  "words (loadDictionary (Some raw)) = map fst (fileEntries loadedCount raw) \<and>
   counts (loadDictionary (Some raw)) = map snd (fileEntries loadedCount raw) \<and>
   allowedSet (loadDictionary (Some raw)) =
     (if fileEntries loadedCount raw = [] then None
      else Some (set (map fst (fileEntries loadedCount raw)))) \<and>
   length (words (loadDictionary (Some raw))) = length (counts (loadDictionary (Some raw))) \<and>
   loadDictionary None = initialVocabulary"
  by (simp add: loadDictionary_def foldl_loadLine fileEntries_def initialVocabulary_def Let_def)

theorem loader_entries_witness:
  "fileEntries loadedCount sampleFile = [(''fate'', 20), (''doom'', 15), (''glory'', 1), (''zeus'', 1)] \<and>
   words (loadDictionary (Some sampleFile)) = [''fate'', ''doom'', ''glory'', ''zeus''] \<and>
   counts (loadDictionary (Some sampleFile)) = [20, 15, 1, 1]"
proof -
  have "fileEntries loadedCount sampleFile = [(''fate'', 20), (''doom'', 15), (''glory'', 1), (''zeus'', 1)]"
    by (simp add: sampleFile_def fileEntries_def lineEntry_def loadedCount_def trim_def isSpace_def
      startsWithHash_def isTab_def parseInt_def isDigit_def digitsValue_def digitValue_def)
  with loader_entries [of sampleFile] show ?thesis by simp
qed

lemma set_insertBy: "set (insertBy cmp x ys) = insert x (set ys)"
  by (induction ys) auto

lemma distinct_insertBy: "distinct (insertBy cmp x ys) = (x \<notin> set ys \<and> distinct ys)"
  by (induction ys) (auto simp: set_insertBy)

lemma set_sortBy: "set (sortBy cmp xs) = set xs"
  by (induction xs) (simp_all add: sortBy_def set_insertBy)

lemma distinct_sortBy: "distinct (sortBy cmp xs) = distinct xs"
proof (induction xs)
  case Nil
  then show ?case by (simp add: sortBy_def)
next
  case (Cons x xs)
  have "set (foldr (insertBy cmp) xs []) = set xs"
    using set_sortBy [of cmp xs] by (simp add: sortBy_def)
  with Cons show ?case by (simp add: sortBy_def distinct_insertBy)
qed

lemma sorted_wrt_insertBy:
  assumes total: "\<forall>a b. cmp a b \<le> 0 \<or> cmp b a \<le> 0"
    and trans: "\<forall>a b c. cmp a b \<le> 0 \<and> cmp b c \<le> 0 \<longrightarrow> cmp a c \<le> 0"
    and sorted: "sorted_wrt (\<lambda>a b. cmp a b \<le> 0) ys"
  shows "sorted_wrt (\<lambda>a b. cmp a b \<le> 0) (insertBy cmp x ys)"
  using sorted
proof (induction ys)
  case Nil
  then show ?case by simp
next
  case (Cons y ys)
  show ?case
  proof (cases "cmp x y \<le> 0")
    case True
    from Cons.prems have "\<forall>z\<in>set ys. cmp y z \<le> 0" by simp
    with True trans have "\<forall>z\<in>set ys. cmp x z \<le> 0" by blast
    with True Cons.prems show ?thesis by simp
  next
    case False
    with total have yx: "cmp y x \<le> 0" by blast
    from Cons.prems have "sorted_wrt (\<lambda>a b. cmp a b \<le> 0) ys" "\<forall>z\<in>set ys. cmp y z \<le> 0"
      by simp_all
    with Cons.IH yx False show ?thesis by (simp add: set_insertBy)
  qed
qed

lemma sorted_wrt_sortBy:
  assumes total: "\<forall>a b. cmp a b \<le> 0 \<or> cmp b a \<le> 0"
    and trans: "\<forall>a b c. cmp a b \<le> 0 \<and> cmp b c \<le> 0 \<longrightarrow> cmp a c \<le> 0"
  shows "sorted_wrt (\<lambda>a b. cmp a b \<le> 0) (sortBy cmp xs)"
proof (induction xs)
  case Nil
  then show ?case by (simp add: sortBy_def)
next
  case (Cons x xs)
  then have "sorted_wrt (\<lambda>a b. cmp a b \<le> 0) (foldr (insertBy cmp) xs [])"
    by (simp add: sortBy_def)
  with total trans
  have "sorted_wrt (\<lambda>a b. cmp a b \<le> 0) (insertBy cmp x (foldr (insertBy cmp) xs []))"
    by (rule sorted_wrt_insertBy)
  then show ?case
    by (simp add: sortBy_def)
qed

lemma keyOrder_le:
  "keyOrder cnt a b \<le> 0 \<longleftrightarrow>
     countOf cnt b < countOf cnt a \<or> (countOf cnt b = countOf cnt a \<and> a \<le> b)"
  by (auto simp: keyOrder_def localeCompare_def Let_def)

lemma sorted_sortedKeys: "sorted_wrt (\<lambda>a b. keyOrder cnt a b \<le> 0) (sortedKeys cnt)"
  unfolding sortedKeys_def
proof (rule sorted_wrt_sortBy)
  show "\<forall>a b. keyOrder cnt a b \<le> 0 \<or> keyOrder cnt b a \<le> 0"
    by (auto simp: keyOrder_le)
  show "\<forall>a b c. keyOrder cnt a b \<le> 0 \<and> keyOrder cnt b c \<le> 0 \<longrightarrow> keyOrder cnt a c \<le> 0"
  proof (intro allI impI)
    fix a b c :: string
    assume "keyOrder cnt a b \<le> 0 \<and> keyOrder cnt b c \<le> 0"
    then have ab: "countOf cnt b < countOf cnt a \<or> (countOf cnt b = countOf cnt a \<and> a \<le> b)"
      and bc: "countOf cnt c < countOf cnt b \<or> (countOf cnt c = countOf cnt b \<and> b \<le> c)"
      by (simp_all add: keyOrder_le)
    show "keyOrder cnt a c \<le> 0"
    proof (cases "countOf cnt c < countOf cnt a")
      case True
      then show ?thesis by (simp add: keyOrder_le)
    next
      case False
      with ab bc have "countOf cnt c = countOf cnt a" "a \<le> b" "b \<le> c" by auto
      then show ?thesis using order_trans [of a b c] by (simp add: keyOrder_le)
    qed
  qed
qed

lemma keys_bump: "map fst (bump cnt w) = (if w \<in> fst ` set cnt then map fst cnt else map fst cnt @ [w])"
  by (induction cnt) force+

lemma distinct_bump: "distinct (map fst cnt) \<Longrightarrow> distinct (map fst (bump cnt w))"
  by (simp add: keys_bump)

lemma distinct_foldl_bump:
  "distinct (map fst cnt) \<Longrightarrow>
   distinct (map fst (foldl (\<lambda>cnt w. if w = [] then cnt else bump cnt w) cnt ws))"
  by (induction ws arbitrary: cnt) (simp_all add: distinct_bump)

lemma distinct_countWords: "distinct (map fst (countWords text))"
  by (simp add: countWords_def Let_def distinct_foldl_bump)

lemma distinct_sortedKeys: "distinct (sortedKeys (countWords text))"
  by (simp add: sortedKeys_def distinct_sortBy distinct_countWords)

text \<open>
  C7.  In the entries that the builder writes, in the order in which it writes them, the
  words are pairwise different, and for two consecutive entries the first has the
  greater count, or the counts are equal and the first word is less than or equal to the
  second in the lexicographic order.
\<close>

theorem dictionary_order:
  "distinct (map fst (selected text)) \<and>
   (\<forall>i. i + 1 < length (selected text) \<longrightarrow>
      snd (selected text ! (i + 1)) < snd (selected text ! i) \<or>
      (snd (selected text ! i) = snd (selected text ! (i + 1)) \<and>
       fst (selected text ! i) \<le> fst (selected text ! (i + 1))))"
proof -
  let ?cnt = "countWords text"
  let ?keys = "filter (\<lambda>word. 10 \<le> countOf ?cnt word) (sortedKeys ?cnt)"
  have sel: "selected text = map (\<lambda>word. (word, countOf ?cnt word)) ?keys"
    by (simp add: selected_def Let_def)
  have fst_sel: "map fst (selected text) = ?keys"
    by (simp add: sel comp_def)
  have "distinct ?keys" by (simp add: distinct_sortedKeys)
  then have unique: "distinct (map fst (selected text))" by (simp only: fst_sel)
  have sorted: "sorted_wrt (\<lambda>a b. keyOrder ?cnt a b \<le> 0) ?keys"
    by (intro sorted_wrt_filter sorted_sortedKeys)
  have adjacent: "snd (selected text ! (i + 1)) < snd (selected text ! i) \<or>
      (snd (selected text ! i) = snd (selected text ! (i + 1)) \<and>
       fst (selected text ! i) \<le> fst (selected text ! (i + 1)))"
    if "i + 1 < length (selected text)" for i
  proof -
    from that have len: "i + 1 < length ?keys" by (simp add: sel)
    with sorted_wrt_nth_less [OF sorted, of i "i + 1"]
    have "keyOrder ?cnt (?keys ! i) (?keys ! (i + 1)) \<le> 0"
      by simp
    with len show ?thesis by (auto simp: sel keyOrder_le)
  qed
  from unique adjacent show ?thesis by blast
qed

theorem dictionary_order_witness:
  "selected sampleCorpus = [(''c'', 11), (''a'', 10), (''b'', 10)] \<and>
   (1::nat) + 1 < length (selected sampleCorpus) \<and>
   snd (selected sampleCorpus ! 1) = snd (selected sampleCorpus ! (1 + 1)) \<and>
   fst (selected sampleCorpus ! 1) \<le> fst (selected sampleCorpus ! (1 + 1)) \<and>
   snd (selected sampleCorpus ! (0 + 1)) < snd (selected sampleCorpus ! 0) \<and>
   distinct (map fst (selected sampleCorpus))"
proof -
  have sel: "selected sampleCorpus = [(''c'', 11), (''a'', 10), (''b'', 10)]"
    by (simp add: sampleCorpus_def selected_def countWords_def toLowerCase_def toLowerChar_def
        isLetter_def upperLetters_def lowerLetters_def isSpace_def sortedKeys_def sortBy_def
        keyOrder_def countOf_def localeCompare_def)
  from dictionary_order [of sampleCorpus]
  have "distinct (map fst (selected sampleCorpus))"
    and "\<And>i. i + 1 < length (selected sampleCorpus) \<Longrightarrow>
      snd (selected sampleCorpus ! (i + 1)) < snd (selected sampleCorpus ! i) \<or>
      (snd (selected sampleCorpus ! i) = snd (selected sampleCorpus ! (i + 1)) \<and>
       fst (selected sampleCorpus ! i) \<le> fst (selected sampleCorpus ! (i + 1)))"
    by blast+
  from this(1) this(2) [of 1] this(2) [of 0] sel show ?thesis by simp
qed

lemma MAX_VALUE_less: "MAX_VALUE < 2 ^ 1024"
  by (simp add: MAX_VALUE_def)

lemma MAX_VALUE_pos: "0 < MAX_VALUE"
  by (simp add: MAX_VALUE_def)



lemma MAX_VALUE_ge_1: "1 \<le> MAX_VALUE"
  by (simp add: MAX_VALUE_def)



lemma fromReal_positive: "0 < x \<Longrightarrow> numGt (fromReal x) (Finite 0)"
  using MAX_VALUE_ge_1 by (simp add: fromReal_def)

lemma Math_pow_positive: "0 < x \<Longrightarrow> numGt (Math_pow x y) (Finite 0)"
  by (simp add: Math_pow_def fromReal_positive)

lemma powr_overflow_4:
  assumes "4 \<le> x" and "512 \<le> y"
  shows "MAX_VALUE < x powr y"
proof -
  have "(4::real) powr 512 = 2 ^ 1024" by simp
  with MAX_VALUE_less have "MAX_VALUE < (4::real) powr 512" by simp
  also have "\<dots> \<le> 4 powr y"
    using assms(2) by (intro powr_mono) simp_all
  also have "\<dots> \<le> x powr y"
    using assms by (intro powr_mono2) simp_all
  finally show ?thesis .
qed

lemma Math_pow_overflow_4:
  "4 \<le> x \<Longrightarrow> 512 \<le> y \<Longrightarrow> Math_pow x y = PosInfinity"
  using powr_overflow_4 [of x y] by (simp add: Math_pow_def fromReal_def)

lemma reshape_nth:
  "i < length cs \<Longrightarrow> reshape cs temperature ! i = Math_pow (real_of_int (cs ! i)) (tempExp temperature)"
  by (simp add: reshape_def)

lemma length_reshape: "length (reshape cs temperature) = length cs"
  by (simp add: reshape_def)



lemma initialWeights_seed:
  "indexOf (words st) t = Some j \<Longrightarrow> j < length (counts st) \<Longrightarrow>
   initialWeights st temperature (Some t) ! j = Finite 0"
  by (simp add: initialWeights_def length_reshape)

lemma initialWeights_other:
  assumes "i < length (counts st)" and "\<forall>t. seed = Some t \<longrightarrow> indexOf (words st) t \<noteq> Some i"
  shows "initialWeights st temperature seed ! i = reshape (counts st) temperature ! i"
proof (cases seed)
  case None
  then show ?thesis by (simp add: initialWeights_def)
next
  case (Some t)
  show ?thesis
  proof (cases "indexOf (words st) t")
    case None
    with Some show ?thesis by (simp add: initialWeights_def)
  next
    case (Some j)
    with assms \<open>seed = Some t\<close> have "j \<noteq> i" by auto
    with Some \<open>seed = Some t\<close> show ?thesis by (simp add: initialWeights_def)
  qed
qed

lemma firstSeed_promptUnique:
  "firstSeed (arrayFromSet (tokenize prompt)) =
     (case arrayFromSet (tokenize prompt) of [] \<Rightarrow> None | p # ps \<Rightarrow> Some p)"
proof (cases "arrayFromSet (tokenize prompt)")
  case Nil
  then show ?thesis by (simp add: firstSeed_def)
next
  case (Cons p ps)
  then have "p \<in> set (tokenize prompt)"
    using set_arrayFromSet [of "tokenize prompt"] by auto
  then have "p \<noteq> []" by (rule tokenize_nonempty)
  with Cons show ?thesis by (simp add: firstSeed_def)
qed

lemma sampled_tokens:
  "res_tokens (localModes st rnd ''sample'' len temperature (arrayFromSet (tokenize prompt))) =
     sampleLoop (words st) rnd len 0 (arrayFromSet (tokenize prompt))
       (initialWeights st temperature
          (case arrayFromSet (tokenize prompt) of [] \<Rightarrow> None | p # ps \<Rightarrow> Some p))"
  by (simp add: localModes_def Let_def pushPrompt_promptUnique firstSeed_promptUnique [symmetric])

lemma tokenize_fate_of_doom: "tokenize ''fate of doom'' = [''fate'', ''of'', ''doom'']"
  by (simp add: tokenize_simps)

lemma example_seed_in_vocabulary:
  "predict exampleVocabulary (\<lambda>k. 1 / 4) ext ''fate of doom'' (exampleOptions (Some ''sample'') 4) =
     (Returns \<lparr>res_text = ''Fate of doom doom.'',
               res_tokens = [''fate'', ''of'', ''doom'', ''doom''], res_warning = None\<rparr>, 0)"
  by (simp add: predict_local isLocal_def example_options exampleVocabulary_eq
      tokenize_fate_of_doom arrayFromSet_def localModes_def firstSeed_def initialWeights_def
      reshape_def tempExp_def Math_pow_def fromReal_def MAX_VALUE_def cumulativeFromArray_def
      sampleIndexFromCum_def sampleLoop.simps searchCum.simps capitalize_simps)

text \<open>
  C9.  Sampled mode can return the same word twice.  The sampler starts from the
  reshaped counts in which only the weight at the index of the seed, the first word of
  the prompt, is set to 0; every other index keeps its weight, which is positive when the
  count is, also where the word is a later word of the prompt.  For the example
  vocabulary, length 4 and temperature 1: the seed phrase "fate of doom" with the draws
  1/4 gives fate, of, doom, doom (the weight of fate is 0, doom is drawn); the seed
  phrase "tell of doom" with the draws 1/2 gives tell, of, doom, doom.
\<close>

theorem sampled_mode_repeats_prompt_word:
  assumes "words st \<noteq> []" and "modeOf opts = ''sample''"
  shows "(\<exists>r. predict st rnd ext prompt opts = (Returns r, 0) \<and>
            res_tokens r =
              sampleLoop (words st) rnd (lengthOf opts) 0 (arrayFromSet (tokenize prompt))
                (initialWeights st (temperatureOf opts)
                   (case arrayFromSet (tokenize prompt) of [] \<Rightarrow> None | p # ps \<Rightarrow> Some p))) \<and>
         (\<forall>temperature t j. indexOf (words st) t = Some j \<and> j < length (counts st) \<longrightarrow>
            initialWeights st temperature (Some t) ! j = Finite 0) \<and>
         (\<forall>temperature seed i.
            i < length (counts st) \<and> (\<forall>t. seed = Some t \<longrightarrow> indexOf (words st) t \<noteq> Some i) \<longrightarrow>
            initialWeights st temperature seed ! i = reshape (counts st) temperature ! i \<and>
            (0 < counts st ! i \<longrightarrow> numGt (initialWeights st temperature seed ! i) (Finite 0))) \<and>
         predict exampleVocabulary (\<lambda>k. 1 / 4) ext ''fate of doom''
             (exampleOptions (Some ''sample'') 4) =
           (Returns \<lparr>res_text = ''Fate of doom doom.'',
                     res_tokens = [''fate'', ''of'', ''doom'', ''doom''], res_warning = None\<rparr>, 0) \<and>
         predict exampleVocabulary (\<lambda>k. 1 / 2) ext ''tell of doom''
             (exampleOptions (Some ''sample'') 4) =
           (Returns \<lparr>res_text = ''Tell of doom doom.'',
                     res_tokens = [''tell'', ''of'', ''doom'', ''doom''], res_warning = None\<rparr>, 0) \<and>
         \<not> distinct [''fate'', ''of'', ''doom'', ''doom''] \<and>
         \<not> distinct [''tell'', ''of'', ''doom'', ''doom'']"
proof -
  have A: "\<exists>r. predict st rnd ext prompt opts = (Returns r, 0) \<and>
            res_tokens r =
              sampleLoop (words st) rnd (lengthOf opts) 0 (arrayFromSet (tokenize prompt))
                (initialWeights st (temperatureOf opts)
                   (case arrayFromSet (tokenize prompt) of [] \<Rightarrow> None | p # ps \<Rightarrow> Some p))"
    using assms by (simp add: predict_local isLocal_def sampled_tokens)
  have B: "\<forall>temperature t j. indexOf (words st) t = Some j \<and> j < length (counts st) \<longrightarrow>
            initialWeights st temperature (Some t) ! j = Finite 0"
    by (simp add: initialWeights_seed)
  have C: "\<forall>temperature seed i.
            i < length (counts st) \<and> (\<forall>t. seed = Some t \<longrightarrow> indexOf (words st) t \<noteq> Some i) \<longrightarrow>
            initialWeights st temperature seed ! i = reshape (counts st) temperature ! i \<and>
            (0 < counts st ! i \<longrightarrow> numGt (initialWeights st temperature seed ! i) (Finite 0))"
  proof (intro allI impI)
    fix temperature seed i
    assume h: "i < length (counts st) \<and> (\<forall>t. seed = Some t \<longrightarrow> indexOf (words st) t \<noteq> Some i)"
    then have eq: "initialWeights st temperature seed ! i = reshape (counts st) temperature ! i"
      by (intro initialWeights_other) simp_all
    moreover from h have "numGt (reshape (counts st) temperature ! i) (Finite 0)"
      if "0 < counts st ! i"
      using that by (simp add: reshape_nth Math_pow_positive)
    ultimately show "initialWeights st temperature seed ! i = reshape (counts st) temperature ! i \<and>
            (0 < counts st ! i \<longrightarrow> numGt (initialWeights st temperature seed ! i) (Finite 0))"
      by simp
  qed
  show ?thesis
    by (intro conjI A B C example_seed_in_vocabulary example_sample_call) simp_all
qed

theorem sampled_mode_repeats_prompt_word_witness:
  "words exampleVocabulary \<noteq> [] \<and> modeOf (exampleOptions (Some ''sample'') 4) = ''sample'' \<and>
   arrayFromSet (tokenize ''fate of doom'') = [''fate'', ''of'', ''doom''] \<and>
   indexOf (words exampleVocabulary) ''fate'' = Some 0 \<and>
   indexOf (words exampleVocabulary) ''doom'' = Some 1 \<and>
   initialWeights exampleVocabulary 1 (Some ''fate'') ! 0 = Finite 0 \<and>
   initialWeights exampleVocabulary 1 (Some ''fate'') ! 1 = reshape (counts exampleVocabulary) 1 ! 1 \<and>
   numGt (initialWeights exampleVocabulary 1 (Some ''fate'') ! 1) (Finite 0) \<and>
   initialWeights exampleVocabulary 1 (Some ''fate'') = [Finite 0, Finite 15, Finite 12] \<and>
   sampleLoop (words exampleVocabulary) (\<lambda>k. 1 / 4) 4 0 [''fate'', ''of'', ''doom'']
       [Finite 0, Finite 15, Finite 12] = [''fate'', ''of'', ''doom'', ''doom'']"
proof -
  let ?st = exampleVocabulary and ?opts = "exampleOptions (Some ''sample'') 4"
  have h1: "words ?st \<noteq> []" by (simp add: exampleVocabulary_eq)
  have h2: "modeOf ?opts = ''sample''" by (simp add: example_options)
  have pu: "arrayFromSet (tokenize ''fate of doom'') = [''fate'', ''of'', ''doom'']"
    by (simp add: tokenize_fate_of_doom arrayFromSet_def)
  have ix: "indexOf (words ?st) ''fate'' = Some 0" "indexOf (words ?st) ''doom'' = Some 1"
    "(0::nat) < length (counts ?st)" "(1::nat) < length (counts ?st)" "0 < counts ?st ! 1"
    by (simp_all add: exampleVocabulary_eq)
  have w: "initialWeights ?st 1 (Some ''fate'') = [Finite 0, Finite 15, Finite 12]"
    by (simp add: exampleVocabulary_eq initialWeights_def reshape_def tempExp_def Math_pow_def
        fromReal_def MAX_VALUE_def)
  note T = sampled_mode_repeats_prompt_word [OF h1 h2, of "\<lambda>k. 1 / 4" "\<lambda>n. Fails []" "''fate of doom''"]
  from T ix have zero: "initialWeights ?st 1 (Some ''fate'') ! 0 = Finite 0"
    by blast
  from T have other: "\<And>temperature seed i.
      i < length (counts ?st) \<Longrightarrow> \<forall>t. seed = Some t \<longrightarrow> indexOf (words ?st) t \<noteq> Some i \<Longrightarrow>
      initialWeights ?st temperature seed ! i = reshape (counts ?st) temperature ! i \<and>
      (0 < counts ?st ! i \<longrightarrow> numGt (initialWeights ?st temperature seed ! i) (Finite 0))"
    by blast
  from other [of 1 "Some ''fate''" 1] ix
  have kept: "initialWeights ?st 1 (Some ''fate'') ! 1 = reshape (counts ?st) 1 ! 1"
    "numGt (initialWeights ?st 1 (Some ''fate'') ! 1) (Finite 0)"
    by auto
  from T obtain r where r: "predict ?st (\<lambda>k. 1 / 4) (\<lambda>n. Fails []) ''fate of doom'' ?opts = (Returns r, 0)"
    "res_tokens r = sampleLoop (words ?st) (\<lambda>k. 1 / 4) (lengthOf ?opts) 0
        (arrayFromSet (tokenize ''fate of doom''))
        (initialWeights ?st (temperatureOf ?opts)
           (case arrayFromSet (tokenize ''fate of doom'') of [] \<Rightarrow> None | p # ps \<Rightarrow> Some p))"
    by blast
  from T have "predict ?st (\<lambda>k. 1 / 4) (\<lambda>n. Fails []) ''fate of doom'' ?opts =
           (Returns \<lparr>res_text = ''Fate of doom doom.'',
                     res_tokens = [''fate'', ''of'', ''doom'', ''doom''], res_warning = None\<rparr>, 0)"
    by blast
  with r have "sampleLoop (words ?st) (\<lambda>k. 1 / 4) 4 0 [''fate'', ''of'', ''doom'']
       [Finite 0, Finite 15, Finite 12] = [''fate'', ''of'', ''doom'', ''doom'']"
    by (auto simp: pu w example_options)
  with h1 h2 pu ix zero kept w show ?thesis by simp
qed





lemma sampleLoop_drawn:
  "sampleLoop ws rnd len k tokens mw =
     tokens @ map (\<lambda>i. ws ! i) (drawn rnd len k (length tokens) mw)"
proof (induction ws rnd len k tokens mw rule: sampleLoop.induct)
  case (1 ws rnd len k tokens mw)
  show ?case
  proof (cases "int (length tokens) < len")
    case False
    then show ?thesis
      by (simp add: sampleLoop.simps [of ws rnd len k tokens mw] drawn.simps [of rnd len k _ mw])
  next
    case True
    obtain cum tot where ct: "cumulativeFromArray mw = (cum, tot)"
      by (cases "cumulativeFromArray mw")
    show ?thesis
    proof (cases "numLe tot (Finite 0)")
      case le: True
      with ct True show ?thesis
        by (simp add: sampleLoop.simps [of ws rnd len k tokens mw] drawn.simps [of rnd len k _ mw])
    next
      case False
      from "1.IH" [OF True ct [symmetric] False refl refl] True ct False show ?thesis
        by (simp add: sampleLoop.simps [of ws rnd len k tokens mw]
            drawn.simps [of rnd len k _ mw] Let_def)
    qed
  qed
qed

lemma overflow_weights:
  "initialWeights exampleVocabulary (1 / 1000) None = [PosInfinity, PosInfinity, PosInfinity]"
proof -
  have "tempExp (1 / 1000) = 1000"
    by (simp add: tempExp_def max_def)
  then show ?thesis
    by (simp add: exampleVocabulary_eq initialWeights_def reshape_def Math_pow_overflow_4)
qed

lemma overflow_drawn:
  "drawn (\<lambda>k. 1 / 2) 5 0 0 [PosInfinity, PosInfinity, PosInfinity] = [2, 2, 2, 2, 2]"
  by (simp add: drawn.simps cumulativeFromArray_def sampleIndexFromCum_def searchCum.simps)

text \<open>
  C5 fails in the code when the weights overflow.  For the example vocabulary in sampled
  mode with the empty seed phrase, length 5 and temperature 0.001, every reshaped weight
  is \<^verbatim>\<open>Infinity\<close>; then the total and the draw \<open>r\<close> are \<^verbatim>\<open>Infinity\<close>, no
  running sum is greater than \<open>r\<close>, and the search returns the last index at every draw.
  Setting its weight to 0 leaves the total at \<^verbatim>\<open>Infinity\<close>, so the loop does not stop
  early: the index 2 is emitted five times, four times with the weight 0.
\<close>

theorem sampler_repeats_index_on_overflow:
  "initialWeights exampleVocabulary (1 / 1000) None = [PosInfinity, PosInfinity, PosInfinity] \<and>
   cumulativeFromArray [PosInfinity, PosInfinity, PosInfinity] =
     ([PosInfinity, PosInfinity, PosInfinity], PosInfinity) \<and>
   sampleIndexFromCum (1 / 2) [PosInfinity, PosInfinity, PosInfinity] PosInfinity = 2 \<and>
   cumulativeFromArray [PosInfinity, PosInfinity, Finite 0] =
     ([PosInfinity, PosInfinity, PosInfinity], PosInfinity) \<and>
   drawn (\<lambda>k. 1 / 2) 5 0 0 [PosInfinity, PosInfinity, PosInfinity] = [2, 2, 2, 2, 2] \<and>
   predict exampleVocabulary (\<lambda>k. 1 / 2) ext [] overflowOptions =
     (Returns \<lparr>res_text = ''Glory glory glory glory glory.'',
               res_tokens = [''glory'', ''glory'', ''glory'', ''glory'', ''glory''],
               res_warning = None\<rparr>, 0)"
proof -
  have opts: "modeOf overflowOptions = ''sample''" "lengthOf overflowOptions = 5"
    "temperatureOf overflowOptions = 1 / 1000"
    by (simp_all add: overflowOptions_def modeOf_def lengthOf_def temperatureOf_def)
  have c1: "cumulativeFromArray [PosInfinity, PosInfinity, PosInfinity] =
     ([PosInfinity, PosInfinity, PosInfinity], PosInfinity)"
    and c2: "cumulativeFromArray [PosInfinity, PosInfinity, Finite 0] =
     ([PosInfinity, PosInfinity, PosInfinity], PosInfinity)"
    by (simp_all add: cumulativeFromArray_def)
  have ix: "sampleIndexFromCum (1 / 2) [PosInfinity, PosInfinity, PosInfinity] PosInfinity = 2"
    by (simp add: sampleIndexFromCum_def searchCum.simps)
  have "tokenize [] = []"
    by (simp add: tokenize_def normalizeText_def)
  then have "predict exampleVocabulary (\<lambda>k. 1 / 2) ext [] overflowOptions =
     (Returns \<lparr>res_text = ''Glory glory glory glory glory.'',
               res_tokens = [''glory'', ''glory'', ''glory'', ''glory'', ''glory''],
               res_warning = None\<rparr>, 0)"
    by (simp add: predict_local isLocal_def opts exampleVocabulary_eq [THEN arg_cong [of _ _ words]]
        arrayFromSet_def localModes_def firstSeed_def overflow_weights sampleLoop_drawn
        overflow_drawn capitalize_simps)
  with overflow_weights overflow_drawn c1 c2 ix show ?thesis by simp
qed

end
